theory Spec2Isabelle
  imports Complex_Main
begin

section \<open>Strings\<close>

text \<open>
  A Python \<open>str\<close> is modelled as a \<^typ>\<open>string\<close>: a list of characters, each one
  a code point below 256. Percentages, byte counts and speeds, which the program holds
  as floats, are modelled as exact \<^typ>\<open>real\<close> numbers.
\<close>

text \<open>\<open>str.isspace\<close> on code points below 256, which is also what \<open>\s\<close> matches
  and what \<open>str.strip()\<close> removes.\<close>

definition is_space :: "char \<Rightarrow> bool" where
  "is_space c \<longleftrightarrow> c \<in> set [CHR 0x09, CHR 0x0A, CHR 0x0B, CHR 0x0C, CHR 0x0D,
     CHR 0x1C, CHR 0x1D, CHR 0x1E, CHR 0x1F, CHR 0x20, CHR 0x85, CHR 0xA0]"

definition is_digit :: "char \<Rightarrow> bool" where
  "is_digit c \<longleftrightarrow> c \<in> set ''0123456789''"

definition is_ascii_letter :: "char \<Rightarrow> bool" where
  "is_ascii_letter c \<longleftrightarrow>
     c \<in> set ''abcdefghijklmnopqrstuvwxyzABCDEFGHIJKLMNOPQRSTUVWXYZ''"

text \<open>\<open>s.strip()\<close> and \<open>s.rstrip(".")\<close>.\<close>

definition strip :: "string \<Rightarrow> string" where
  "strip s = rev (dropWhile is_space (rev (dropWhile is_space s)))"

definition rstrip_dot :: "string \<Rightarrow> string" where
  "rstrip_dot s = rev (dropWhile (\<lambda>c. c = CHR ''.'') (rev s))"

text \<open>\<open>p in s\<close> for strings: \<open>p\<close> occurs in \<open>s\<close> as a contiguous run.\<close>

fun starts_with :: "string \<Rightarrow> string \<Rightarrow> bool" where
  "starts_with s [] = True"
| "starts_with [] (p # ps) = False"
| "starts_with (c # cs) (p # ps) = (c = p \<and> starts_with cs ps)"

fun contains :: "string \<Rightarrow> string \<Rightarrow> bool" where
  "contains [] p = (p = [])"
| "contains (c # cs) p = (starts_with (c # cs) p \<or> contains cs p)"

section \<open>Name sanitisation\<close>

text \<open>The character class \<open>[<>:"/\\|?*]\<close> of \<open>clean_name\<close>.\<close>

definition illegal_chars :: "char list" where
  "illegal_chars = [CHR ''<'', CHR ''>'', CHR '':'', CHR 0x22, CHR ''/'', CHR 0x5C,
     CHR ''|'', CHR ''?'', CHR ''*'']"

text \<open>
  \<open>clean_name(name)\<close>. The argument is a JSON title: \<open>None\<close> or a string. The test
  \<open>not name\<close> holds for \<open>None\<close> and for the empty string, and is made before any
  character is removed.
\<close>

definition clean_name :: "string option \<Rightarrow> string" where
  "clean_name name =
     (case name of
        None \<Rightarrow> ''Unknown''
      | Some n \<Rightarrow>
          if n = [] then ''Unknown''
          else
            let n1 = filter (\<lambda>c. c \<noteq> CHR ''#'') n;
                n2 = filter (\<lambda>c. c \<notin> set illegal_chars) n1
            in rstrip_dot (strip n2))"

section \<open>The title filter\<close>

text \<open>
  \<open>re.escape\<close> of the standard library (Python 3.7 and later): every character of
  \<open>()[]{}?*+-|^$\.&~#\<close>, the space, and \<open>\t \n \r \v \f\<close> gets a backslash in front;
  every other character is kept as it is.
\<close>

definition re_special :: "char list" where
  "re_special = [CHR ''('', CHR '')'', CHR ''['', CHR '']'', CHR ''{'', CHR ''}'',
     CHR ''?'', CHR ''*'', CHR ''+'', CHR ''-'', CHR ''|'', CHR ''^'', CHR ''$'',
     CHR 0x5C, CHR ''.'', CHR ''&'', CHR ''~'', CHR ''#'', CHR '' '',
     CHR 0x09, CHR 0x0A, CHR 0x0D, CHR 0x0B, CHR 0x0C]"

fun re_escape :: "string \<Rightarrow> string" where
  "re_escape [] = []"
| "re_escape (c # cs) =
     (if c \<in> set re_special then CHR 0x5C # c # re_escape cs else c # re_escape cs)"

text \<open>
  How the regular-expression syntax of \<open>re\<close> reads a pattern, position by position:
  a backslash with a character that is neither an ASCII letter nor a digit stands for that
  character; a backslash with a letter or a digit is a special sequence, and a backslash at
  the end is an error; an unescaped character of \<open>.^$*+?{}[]|()\<close> is an operator; any
  other character stands for itself.
\<close>

datatype token = Lit char | Meta char

definition re_operators :: "char list" where
  "re_operators = [CHR ''.'', CHR ''^'', CHR ''$'', CHR ''*'', CHR ''+'', CHR ''?'',
     CHR ''{'', CHR ''}'', CHR ''['', CHR '']'', CHR ''|'', CHR ''('', CHR '')'']"

fun re_tokens :: "string \<Rightarrow> token list" where
  "re_tokens [] = []"
| "re_tokens [c] =
     (if c = CHR 0x5C \<or> c \<in> set re_operators then [Meta c] else [Lit c])"
| "re_tokens (c # d # cs) =
     (if c = CHR 0x5C then
        (if is_ascii_letter d \<or> is_digit d then Meta d # re_tokens cs
         else Lit d # re_tokens cs)
      else if c \<in> set re_operators then Meta c # re_tokens (d # cs)
      else Lit c # re_tokens (d # cs))"

text \<open>\<open>safe_song = re.escape(song)\<close>, the value of \<open>--match-title\<close>.\<close>

definition safe_song :: "string \<Rightarrow> string" where
  "safe_song song = re_escape song"

definition PLAYLIST_URL :: string where
  "PLAYLIST_URL =
     ''https://music.youtube.com/playlist?list=PLdcNZLpAI8easW7k-5luDy3j4LauXpbx-&si=aV6ovGfbLpF4tCw-''"

text \<open>
  The command line of \<open>download_song\<close>. The interpreter path \<open>sys.executable\<close> and the
  output template \<open>str(playlist_dir / "%(title)s.%(ext)s")\<close> depend on the machine and
  are parameters.
\<close>

definition download_cmd :: "string \<Rightarrow> string \<Rightarrow> string \<Rightarrow> string list" where
  "download_cmd executable out_template song =
     [executable, ''-m'', ''yt_dlp'', PLAYLIST_URL,
      ''--newline'',
      ''--extract-audio'', ''--audio-format'', ''mp3'',
      ''--audio-quality'', ''0'',
      ''--match-title'', safe_song song,
      ''-o'', out_template,
      ''--encoding'', ''utf-8'']"

section \<open>Parsing a line of output\<close>

datatype size_unit = KiB | MiB | GiB

text \<open>\<open>SIZE_MULT\<close>. The regular expressions admit no other unit, so the default of
  \<open>SIZE_MULT.get\<close> is never taken.\<close>

fun SIZE_MULT :: "size_unit \<Rightarrow> real" where
  "SIZE_MULT KiB = 1024"
| "SIZE_MULT MiB = 1024 ^ 2"
| "SIZE_MULT GiB = 1024 ^ 3"

definition is_numdot :: "char \<Rightarrow> bool" where
  "is_numdot c \<longleftrightarrow> is_digit c \<or> c = CHR ''.''"

text \<open>The rest of the string behind a prefix, when the string starts with it.\<close>

fun after_prefix :: "string \<Rightarrow> string \<Rightarrow> string option" where
  "after_prefix [] s = Some s"
| "after_prefix (p # ps) [] = None"
| "after_prefix (p # ps) (c # cs) = (if p = c then after_prefix ps cs else None)"

text \<open>The alternation \<open>(KiB|MiB|GiB)\<close> at the head of a string.\<close>

definition match_unit :: "string \<Rightarrow> (size_unit \<times> string) option" where
  "match_unit s =
     (case after_prefix ''KiB'' s of Some r \<Rightarrow> Some (KiB, r)
      | None \<Rightarrow>
     (case after_prefix ''MiB'' s of Some r \<Rightarrow> Some (MiB, r)
      | None \<Rightarrow>
     (case after_prefix ''GiB'' s of Some r \<Rightarrow> Some (GiB, r)
      | None \<Rightarrow> None)))"

text \<open>
  \<open>re.search\<close> tries the pattern at every position from the left and returns the first
  match. In each of the three patterns every repetition is followed by something that none
  of the repeated characters can start, so the greedy choice is the only one that can match
  and a match at a position is decided by one pass.
\<close>

fun search :: "(string \<Rightarrow> 'a option) \<Rightarrow> string \<Rightarrow> 'a option" where
  "search m [] = m []"
| "search m (c # cs) = (case m (c # cs) of Some r \<Rightarrow> Some r | None \<Rightarrow> search m cs)"

text \<open>\<open>of\s+~?([\d.]+)\s*(KiB|MiB|GiB)\<close> at the head of a string: groups 1 and 2.\<close>

definition match_size :: "string \<Rightarrow> (string \<times> size_unit) option" where
  "match_size s =
     (case after_prefix ''of'' s of None \<Rightarrow> None
      | Some r1 \<Rightarrow>
          if takeWhile is_space r1 = [] then None
          else
            let r2 = dropWhile is_space r1;
                r3 = (case r2 of [] \<Rightarrow> r2 | c # t \<Rightarrow> if c = CHR ''~'' then t else r2);
                num = takeWhile is_numdot r3
            in if num = [] then None
               else
                 (case match_unit (dropWhile is_space (dropWhile is_numdot r3)) of
                    None \<Rightarrow> None
                  | Some (u, _) \<Rightarrow> Some (num, u)))"

text \<open>\<open>(\d+(?:\.\d+)?)%\<close> at the head of a string: group 1.\<close>

definition match_done :: "string \<Rightarrow> string option" where
  "match_done s =
     (let d1 = takeWhile is_digit s; r1 = dropWhile is_digit s
      in if d1 = [] then None
         else
           (case r1 of
              [] \<Rightarrow> None
            | c # r2 \<Rightarrow>
                if c = CHR ''%'' then Some d1
                else if c = CHR ''.'' then
                  (let d2 = takeWhile is_digit r2
                   in if d2 = [] then None
                      else
                        (case dropWhile is_digit r2 of
                           [] \<Rightarrow> None
                         | e # _ \<Rightarrow> if e = CHR ''%'' then Some (d1 @ ''.'' @ d2) else None))
                else None))"

text \<open>\<open>at\s+([\d\.]+)\s*(KiB|MiB|GiB)/s\<close> at the head of a string: groups 1 and 2.\<close>

definition match_speed :: "string \<Rightarrow> (string \<times> size_unit) option" where
  "match_speed s =
     (case after_prefix ''at'' s of None \<Rightarrow> None
      | Some r1 \<Rightarrow>
          if takeWhile is_space r1 = [] then None
          else
            let r2 = dropWhile is_space r1;
                num = takeWhile is_numdot r2
            in if num = [] then None
               else
                 (case match_unit (dropWhile is_space (dropWhile is_numdot r2)) of
                    None \<Rightarrow> None
                  | Some (u, r3) \<Rightarrow>
                      (case after_prefix ''/s'' r3 of None \<Rightarrow> None
                       | Some _ \<Rightarrow> Some (num, u))))"

text \<open>
  The number that a string of digits and dots denotes, which is all the three patterns
  hand to \<open>float\<close>: there is one when the string has at most one dot and at least one
  digit; otherwise \<open>float\<close> raises \<open>ValueError\<close> (\<open>None\<close>).
\<close>

definition digit_value :: "char \<Rightarrow> nat" where
  "digit_value c = of_char c - 48"

definition decimal :: "string \<Rightarrow> nat" where
  "decimal ds = foldl (\<lambda>a c. 10 * a + digit_value c) 0 ds"

definition decimal_value :: "string \<Rightarrow> real option" where
  "decimal_value s =
     (let ip = takeWhile is_digit s
      in case dropWhile is_digit s of
           [] \<Rightarrow> if ip = [] then None else Some (real (decimal ip))
         | c # fp \<Rightarrow>
             if c = CHR ''.'' \<and> list_all is_digit fp \<and> (ip \<noteq> [] \<or> fp \<noteq> [])
             then Some (real (decimal ip) + real (decimal fp) / 10 ^ length fp)
             else None)"

section \<open>Floating-point numbers\<close>

text \<open>
  A Python float is a double: a finite number, an infinity, or NaN. A result whose
  magnitude reaches \<open>2^1024 - 2^970\<close>, halfway between the largest double and \<open>2^1024\<close>,
  is rounded to an infinity. The rounding of a result inside the range is not modelled:
  a finite double is its real value, and the two zeros are one.
\<close>

datatype fl = Fin real | PInf | NInf | NaN

definition DOUBLE_EDGE :: real where
  "DOUBLE_EDGE = 2 ^ 1024 - 2 ^ 970"

definition to_double :: "real \<Rightarrow> fl" where
  "to_double x =
     (if DOUBLE_EDGE \<le> x then PInf else if x \<le> - DOUBLE_EDGE then NInf else Fin x)"

text \<open>\<open>float(s)\<close> on a string of digits and dots.\<close>

definition py_float :: "string \<Rightarrow> fl option" where
  "py_float s = (case decimal_value s of None \<Rightarrow> None | Some v \<Rightarrow> Some (to_double v))"

fun fl_neg :: "fl \<Rightarrow> fl" where
  "fl_neg (Fin a) = Fin (- a)"
| "fl_neg PInf = NInf"
| "fl_neg NInf = PInf"
| "fl_neg NaN = NaN"

fun fl_add :: "fl \<Rightarrow> fl \<Rightarrow> fl" where
  "fl_add (Fin a) (Fin b) = to_double (a + b)"
| "fl_add NaN y = NaN"
| "fl_add x NaN = NaN"
| "fl_add PInf NInf = NaN"
| "fl_add NInf PInf = NaN"
| "fl_add PInf y = PInf"
| "fl_add x PInf = PInf"
| "fl_add NInf y = NInf"
| "fl_add x NInf = NInf"

definition fl_sub :: "fl \<Rightarrow> fl \<Rightarrow> fl" where
  "fl_sub x y = fl_add x (fl_neg y)"

text \<open>An infinity with the sign of a finite factor; with the factor 0 it is NaN.\<close>

definition signed_inf :: "fl \<Rightarrow> real \<Rightarrow> fl" where
  "signed_inf i a = (if a = 0 then NaN else if 0 < a then i else fl_neg i)"

fun fl_mul :: "fl \<Rightarrow> fl \<Rightarrow> fl" where
  "fl_mul (Fin a) (Fin b) = to_double (a * b)"
| "fl_mul NaN y = NaN"
| "fl_mul x NaN = NaN"
| "fl_mul (Fin a) PInf = signed_inf PInf a"
| "fl_mul (Fin a) NInf = signed_inf NInf a"
| "fl_mul PInf (Fin b) = signed_inf PInf b"
| "fl_mul NInf (Fin b) = signed_inf NInf b"
| "fl_mul PInf PInf = PInf"
| "fl_mul NInf NInf = PInf"
| "fl_mul PInf NInf = NInf"
| "fl_mul NInf PInf = NInf"

text \<open>
  Division. Python raises \<open>ZeroDivisionError\<close> on a zero divisor; the program divides
  only by the length of a list it has just appended to and by a speed it has tested to be
  positive, and the model does the same, so the value given here for a zero divisor is
  never used.
\<close>

fun fl_div :: "fl \<Rightarrow> fl \<Rightarrow> fl" where
  "fl_div (Fin a) (Fin b) = (if b = 0 then NaN else to_double (a / b))"
| "fl_div NaN y = NaN"
| "fl_div x NaN = NaN"
| "fl_div (Fin a) PInf = Fin 0"
| "fl_div (Fin a) NInf = Fin 0"
| "fl_div PInf (Fin b) = (if 0 \<le> b then PInf else NInf)"
| "fl_div NInf (Fin b) = (if 0 \<le> b then NInf else PInf)"
| "fl_div PInf y = NaN"
| "fl_div NInf y = NaN"

text \<open>\<open>x > 0\<close>, and the truth value of a float: only zero is false.\<close>

fun fl_pos :: "fl \<Rightarrow> bool" where
  "fl_pos (Fin a) = (0 < a)"
| "fl_pos PInf = True"
| "fl_pos NInf = False"
| "fl_pos NaN = False"

definition fl_truthy :: "fl \<Rightarrow> bool" where
  "fl_truthy x \<longleftrightarrow> x \<noteq> Fin 0"

text \<open>\<open>sum(xs)\<close>: from 0, adding from the left.\<close>

definition fl_sum :: "fl list \<Rightarrow> fl" where
  "fl_sum xs = foldl fl_add (Fin 0) xs"

section \<open>A download session\<close>

datatype phase = Banner | Song | Merge

record session =
  total_bytes :: "fl option"
  last_pct :: "real option"
  speed_samples :: "fl list"
  saw_progress :: bool
  phase :: phase

definition init_session :: session where
  "init_session = \<lparr>total_bytes = None, last_pct = None, speed_samples = [],
     saw_progress = False, phase = Banner\<rparr>"

datatype tag = Song_Tag | Start | Info | Download | Merge_Tag | Final | Done | Error
  | Retry | Warn

text \<open>
  The two callbacks: \<open>stage_cb(text, tag)\<close> and
  \<open>progress_cb(song, pct, downloaded, total_bytes, avg_speed, eta)\<close>.
\<close>

datatype event =
    Stage string tag
  | Progress string real fl "fl option" fl fl

text \<open>Python's truth value of \<open>total_bytes\<close> and of \<open>remaining\<close>: \<open>None\<close> and
  \<open>0.0\<close> are false.\<close>

definition truthy :: "fl option \<Rightarrow> bool" where
  "truthy v \<longleftrightarrow> (case v of None \<Rightarrow> False | Some x \<Rightarrow> fl_truthy x)"

text \<open>The speed branch: the new window and the average speed.\<close>

definition sample_speed :: "fl list \<Rightarrow> (string \<times> size_unit) option \<Rightarrow> fl list \<times> fl" where
  "sample_speed samples speed =
     (case speed of
        None \<Rightarrow> (samples, Fin 0)
      | Some (g, u) \<Rightarrow>
          (case py_float g of
             None \<Rightarrow> (samples, Fin 0)
           | Some v \<Rightarrow>
               let s1 = samples @ [fl_mul v (Fin (SIZE_MULT u))];
                   s2 = (if length s1 > 10 then tl s1 else s1)
               in (s2, fl_div (fl_sum s2) (Fin (real (length s2))))))"

text \<open>\<open>eta = (remaining / avg_speed) if (avg_speed and avg_speed > 0 and remaining) else 0\<close>\<close>

definition eta_of :: "fl option \<Rightarrow> fl \<Rightarrow> fl" where
  "eta_of remaining avg_speed =
     (if fl_truthy avg_speed \<and> fl_pos avg_speed \<and> truthy remaining
      then fl_div (the remaining) avg_speed else Fin 0)"

text \<open>
  The body of \<open>if done:\<close> once the percentage is a number. The percentage is given by
  the decimal value of its digits: \<open>float\<close> makes of them that value or, beyond the range
  of a double, \<open>inf\<close>, and the clamp turns \<open>inf\<close> into 100 as it does every value above
  100.
\<close>

definition update_progress ::
  "string \<Rightarrow> session \<Rightarrow> real \<Rightarrow> (string \<times> size_unit) option \<Rightarrow> session \<times> event list" where
  "update_progress song st pct0 speed =
     (let pct = (if pct0 > 100 then 100 else pct0);
          tb = total_bytes st;
          downloaded = (if truthy tb then fl_mul (the tb) (Fin (pct / 100)) else Fin 0);
          remaining = (if truthy tb then Some (fl_sub (the tb) downloaded) else None);
          to_song = (pct > 2 \<and> phase st = Banner);
          ph1 = (if to_song then Song else phase st);
          to_merge = (pct > 98 \<and> ph1 = Song);
          ph2 = (if to_merge then Merge else ph1);
          (samples, avg_speed) = sample_speed (speed_samples st) speed;
          eta = eta_of remaining avg_speed;
          report = (Some pct \<noteq> last_pct st)
      in (st\<lparr>phase := ph2, speed_samples := samples,
               last_pct := (if report then Some pct else last_pct st)\<rparr>,
          (if to_song then [Stage ''Downloading song'' Download] else []) @
          (if to_merge then [Stage ''Merging everything'' Merge_Tag] else []) @
          (if report then [Progress song pct downloaded tb avg_speed eta] else [])))"

definition already_marker :: string where
  "already_marker = ''has already been downloaded''"

text \<open>The body of \<open>if size:\<close>: the value of \<open>total_bytes\<close> after it. A
  \<open>ValueError\<close> leaves the old value.\<close>

definition read_size :: "fl option \<Rightarrow> string \<Rightarrow> fl option" where
  "read_size tb line =
     (case search match_size line of
        None \<Rightarrow> tb
      | Some (g, u) \<Rightarrow>
          (case py_float g of
             None \<Rightarrow> tb
           | Some v \<Rightarrow> Some (fl_mul v (Fin (SIZE_MULT u)))))"

text \<open>One line of output, from the marker test to the end of the loop body.\<close>

definition process_line :: "string \<Rightarrow> session \<Rightarrow> string \<Rightarrow> session \<times> event list" where
  "process_line song st line =
     (if contains line already_marker then
        (st\<lparr>saw_progress := True\<rparr>,
         [Progress song 100 (Fin 0) (Some (Fin 0)) (Fin 0) (Fin 0),
          Stage ''Already downloaded'' Final])
      else
        let done = search match_done line;
            speed = search match_speed line;
            st1 = st\<lparr>total_bytes := read_size (total_bytes st) line\<rparr>
        in case done of
             None \<Rightarrow> (st1, [])
           | Some g \<Rightarrow>
               update_progress song (st1\<lparr>saw_progress := True\<rparr>)
                 (case decimal_value g of Some v \<Rightarrow> v | None \<Rightarrow> 0) speed)"

text \<open>
  One turn of the \<open>while True\<close> loop, as the environment decides it: \<open>stop_check_cb()\<close>
  answers true; or \<open>readline()\<close> raises \<open>OSError\<close> or \<open>ValueError\<close>; or it returns a
  line, together with whether \<open>proc.poll()\<close> reports the process as exited (the loop
  asks only when the line is empty).
\<close>

datatype tick = Stop_Requested | Read_Error | Read string bool

text \<open>How the loop stands after the ticks given: still reading, left by
  \<open>return False\<close>, or left by \<open>break\<close> or the suppressed exception.\<close>

datatype loop_status = Reading | Cancelled | Left

fun read_loop :: "string \<Rightarrow> session \<Rightarrow> tick list \<Rightarrow> loop_status \<times> session \<times> event list" where
  "read_loop song st [] = (Reading, st, [])"
| "read_loop song st (Stop_Requested # ts) = (Cancelled, st, [])"
| "read_loop song st (Read_Error # ts) = (Left, st, [])"
| "read_loop song st (Read line exited # ts) =
     (if line = [] then (if exited then (Left, st, []) else read_loop song st ts)
      else
        let (st1, evs1) = process_line song st line;
            (status, st2, evs2) = read_loop song st1 ts
        in (status, st2, evs1 @ evs2))"

definition opening_events :: "event list" where
  "opening_events =
     [Stage ''Starting'' Start,
      Stage ''Fetching song details'' Info,
      Stage ''Fetching artist details'' Info,
      Stage ''Fetching album details'' Info]"

text \<open>
  \<open>download_song\<close>. The environment gives the outcome of \<open>Popen\<close> (the text of the
  exception, if it raised), the turns of the loop, and \<open>proc.returncode\<close> after the
  cleanup (\<open>None\<close> when the killed process has not been reaped). The result is the
  returned flag and the events in the order of the calls; there is none while the loop is
  still reading.
\<close>

definition download_song ::
  "string \<Rightarrow> string option \<Rightarrow> tick list \<Rightarrow> int option \<Rightarrow> (bool \<times> event list) option" where
  "download_song song launch_error ticks returncode =
     (case launch_error of
        Some e \<Rightarrow> Some (False, opening_events @ [Stage (''Launch error: '' @ e) Error])
      | None \<Rightarrow>
          (case read_loop song init_session ticks of
             (Reading, st, evs) \<Rightarrow> None
           | (Cancelled, st, evs) \<Rightarrow>
               Some (False, opening_events @ [Stage ''Downloading banner'' Download] @ evs)
           | (Left, st, evs) \<Rightarrow>
               if returncode = Some 0 \<and> saw_progress st then
                 Some (True, opening_events @ [Stage ''Downloading banner'' Download] @ evs
                   @ [Stage ''Finalizing'' Final])
               else
                 Some (False, opening_events @ [Stage ''Downloading banner'' Download] @ evs
                   @ [Stage ''Download failed or interrupted'' Error])))"

section \<open>Resolving the playlist\<close>

text \<open>
  The outcome of the metadata subprocess: \<open>FileNotFoundError\<close>, or the exit code with
  the captured standard output and standard error.
\<close>

datatype fetched = Tool_Missing | Completed int string string

text \<open>
  What \<open>get_playlist_info\<close> reads from the parsed document: the value of \<open>"title"\<close>
  (\<open>None\<close> when the key is absent, \<open>Some None\<close> when it is \<open>null\<close>), and for every
  element of \<open>data.get("entries") or []\<close> its title (\<open>None\<close> when the entry is empty or
  has no title). \<open>json.loads\<close> is a parameter; it gives \<open>None\<close> for
  \<open>JSONDecodeError\<close>.
\<close>

record playlist_json =
  json_title :: "string option option"
  json_entries :: "string option list"

definition song_titles :: "string option list \<Rightarrow> string list" where
  "song_titles entries =
     map clean_name (filter (\<lambda>t. t \<noteq> None \<and> t \<noteq> Some []) entries)"

definition get_playlist_info ::
  "(string \<Rightarrow> playlist_json option) \<Rightarrow> fetched \<Rightarrow> string + (string \<times> string list)" where
  "get_playlist_info json_loads f =
     (case f of
        Tool_Missing \<Rightarrow> Inl ''Python or yt-dlp module not found.''
      | Completed returncode stdout stderr \<Rightarrow>
          if returncode \<noteq> 0 \<or> strip stdout = [] then
            Inl (strip (if stderr = [] then ''yt-dlp failed to fetch info'' else stderr))
          else
            (case json_loads stdout of
               None \<Rightarrow> Inl ''Failed to parse playlist JSON.''
             | Some data \<Rightarrow>
                 Inr (clean_name (case json_title data of
                                    None \<Rightarrow> Some ''Unknown Playlist''
                                  | Some t \<Rightarrow> t),
                      song_titles (json_entries data))))"

section \<open>The run\<close>

text \<open>
  The texts that \<open>App.run\<close> hands to \<open>self.log\<close>, by kind: the text of the exception of
  \<open>get_playlist_info\<close>; \<open>"Playlist is empty."\<close>; \<open>"Cannot create dir: ..."\<close>; the name of
  the song; a stage text of \<open>download_song\<close>; \<open>"Finished ..."\<close>; the notice that the first
  pass is complete; the count of missing songs; \<open>"Retrying ..."\<close>;
  \<open>"Manual download required for:"\<close>; one song of that list; the closing remark on the
  failures; \<open>"All retries succeeded."\<close>; \<open>"No missing files detected."\<close>;
  \<open>"All downloads finished."\<close>.
\<close>

datatype message =
    Fetch_Failed string
  | Playlist_Empty
  | Cannot_Create_Dir string
  | Song_Name string
  | Stage_Text string
  | Finished string
  | Initial_Pass_Complete
  | Missing_Count nat
  | Retrying string
  | Manual_Required
  | Manual_Item string
  | Failure_Note
  | All_Retries_Succeeded
  | No_Missing
  | All_Finished

text \<open>
  What the run does to the outside, in order: a call of \<open>self.log\<close>, the
  \<open>mkdir\<close> of the playlist directory, a call of \<open>download_song\<close>.
\<close>

datatype effect = Log message tag | Mkdir string | Invoke string

fun stage_log :: "event \<Rightarrow> effect list" where
  "stage_log (Stage text t) = [Log (Stage_Text text) t]"
| "stage_log (Progress s pct dl tb spd eta) = []"

text \<open>
  One call of \<open>download_song\<close> from the run, as the environment decides it: the value of
  \<open>self.is_running\<close> at the top of the loop turn, and the subprocess of the call.
\<close>

record attempt =
  a_running :: bool
  a_launch_error :: "string option"
  a_ticks :: "tick list"
  a_returncode :: "int option"

definition attempt_song :: "string \<Rightarrow> attempt \<Rightarrow> (bool \<times> effect list) option" where
  "attempt_song song a =
     (case download_song song (a_launch_error a) (a_ticks a) (a_returncode a) of
        None \<Rightarrow> None
      | Some (ok, evs) \<Rightarrow> Some (ok, Invoke song # concat (map stage_log evs)))"

text \<open>The first pass: the songs that failed, and the effects.\<close>

fun first_pass ::
  "(nat \<Rightarrow> attempt) \<Rightarrow> nat \<Rightarrow> string list \<Rightarrow> (string list \<times> effect list) option" where
  "first_pass env i [] = Some ([], [])"
| "first_pass env i (song # songs) =
     (if \<not> a_running (env i) then Some ([], [])
      else
        (case attempt_song song (env i) of
           None \<Rightarrow> None
         | Some (ok, effs) \<Rightarrow>
             (case first_pass env (Suc i) songs of
                None \<Rightarrow> None
              | Some (failed, rest) \<Rightarrow>
                  Some ((if ok then [] else [song]) @ failed,
                        Log (Song_Name song) Song_Tag # effs
                          @ (if ok then [Log (Finished song) Done] else []) @ rest))))"

text \<open>
  \<open>playlist_dir.glob("*.mp3")\<close> and \<open>f.stem\<close> on the names of a directory listing. The
  stem drops the last suffix; a name whose only dot is the first character, or that ends
  in a dot, has no suffix.
\<close>

definition is_mp3 :: "string \<Rightarrow> bool" where
  "is_mp3 name \<longleftrightarrow> 4 \<le> length name \<and> drop (length name - 4) name = ''.mp3''"

definition stem :: "string \<Rightarrow> string" where
  "stem name =
     (let ext = takeWhile (\<lambda>c. c \<noteq> CHR ''.'') (rev name)
      in if length ext < length name \<and> ext \<noteq> [] \<and> 0 < length name - length ext - 1
         then take (length name - length ext - 1) name
         else name)"

text \<open>\<open>existing_files\<close>; the listing is \<open>None\<close> when it raises \<open>OSError\<close>.\<close>

definition existing_files :: "string list option \<Rightarrow> string list" where
  "existing_files listing =
     (case listing of None \<Rightarrow> [] | Some names \<Rightarrow> map stem (filter is_mp3 names))"

definition missing_songs :: "string list \<Rightarrow> string list option \<Rightarrow> string list" where
  "missing_songs songs listing =
     filter (\<lambda>s. s \<notin> set (existing_files listing)) songs"

text \<open>The retry loop: \<open>still_missing\<close>, and the effects.\<close>

fun retry_pass ::
  "(nat \<Rightarrow> attempt) \<Rightarrow> nat \<Rightarrow> string list \<Rightarrow> (string list \<times> effect list) option" where
  "retry_pass env i [] = Some ([], [])"
| "retry_pass env i (song # songs) =
     (if \<not> a_running (env i) then Some ([], [])
      else
        (case attempt_song song (env i) of
           None \<Rightarrow> None
         | Some (ok, effs) \<Rightarrow>
             (case retry_pass env (Suc i) songs of
                None \<Rightarrow> None
              | Some (still, rest) \<Rightarrow>
                  Some ((if ok then [] else [song]) @ still,
                        Log (Retrying song) Retry # effs @ rest))))"

text \<open>The run from the rescan of the directory to its end.\<close>

definition reconcile ::
  "string list \<Rightarrow> string list option \<Rightarrow> (nat \<Rightarrow> attempt) \<Rightarrow> (string list \<times> effect list) option"
  where
  "reconcile songs listing env =
     (let missing = missing_songs songs listing
      in if missing \<noteq> [] then
           (case retry_pass env 0 missing of
              None \<Rightarrow> None
            | Some (still, effs) \<Rightarrow>
                Some (still,
                  Log (Missing_Count (length missing)) Retry # effs
                    @ (if still \<noteq> [] then
                         Log Manual_Required Warn # map (\<lambda>s. Log (Manual_Item s) Warn) still
                           @ [Log Failure_Note Warn]
                       else [Log All_Retries_Succeeded Done])
                    @ [Log All_Finished Done]))
         else Some ([], [Log No_Missing Done, Log All_Finished Done]))"

text \<open>
  What the environment decides in a run: the metadata subprocess, the value of
  \<open>self.is_running\<close> after it, the \<open>OSError\<close> of \<open>mkdir\<close> if any, the calls of the first
  pass, \<open>self.is_running\<close> after the pass, the directory listing, the calls of the retry
  loop.
\<close>

record world =
  fetched :: fetched
  running_after_fetch :: bool
  mkdir_error :: "string option"
  first_attempts :: "nat \<Rightarrow> attempt"
  running_after_pass :: bool
  listing :: "string list option"
  retry_attempts :: "nat \<Rightarrow> attempt"

text \<open>\<open>App.run\<close>: the effects of the run; there are none to give while a download is
  still reading.\<close>

definition run :: "(string \<Rightarrow> playlist_json option) \<Rightarrow> world \<Rightarrow> effect list option" where
  "run json_loads w =
     (case get_playlist_info json_loads (fetched w) of
        Inl e \<Rightarrow> Some [Log (Fetch_Failed e) Error]
      | Inr (playlist_name, songs) \<Rightarrow>
          if \<not> running_after_fetch w then Some []
          else if songs = [] then Some [Log Playlist_Empty Error]
          else
            (case mkdir_error w of
               Some e \<Rightarrow> Some [Mkdir playlist_name, Log (Cannot_Create_Dir e) Error]
             | None \<Rightarrow>
                 (case first_pass (first_attempts w) 0 songs of
                    None \<Rightarrow> None
                  | Some (failed, effs1) \<Rightarrow>
                      if \<not> running_after_pass w then Some (Mkdir playlist_name # effs1)
                      else
                        (case reconcile songs (listing w) (retry_attempts w) of
                           None \<Rightarrow> None
                         | Some (still, effs2) \<Rightarrow>
                             Some (Mkdir playlist_name # effs1
                               @ [Log Initial_Pass_Complete Retry] @ effs2)))))"

section \<open>Reading the events\<close>

text \<open>The two stage events of the phase changes, and those among a list of events.\<close>

definition to_song_event :: event where
  "to_song_event = Stage ''Downloading song'' Download"

definition to_merge_event :: event where
  "to_merge_event = Stage ''Merging everything'' Merge_Tag"

definition transitions :: "event list \<Rightarrow> event list" where
  "transitions evs = filter (\<lambda>e. e = to_song_event \<or> e = to_merge_event) evs"

fun rank :: "phase \<Rightarrow> nat" where
  "rank Banner = 0"
| "rank Song = 1"
| "rank Merge = 2"

text \<open>The percentage that the loop body parses from a line, before the clamp.\<close>

definition line_pct :: "string \<Rightarrow> real option" where
  "line_pct line =
     (if contains line already_marker then None
      else
        (case search match_done line of
           None \<Rightarrow> None
         | Some g \<Rightarrow> Some (case decimal_value g of Some v \<Rightarrow> v | None \<Rightarrow> 0)))"

text \<open>The percentages parsed, in order, in the turns that the loop takes.\<close>

fun parsed_pcts :: "tick list \<Rightarrow> real list" where
  "parsed_pcts [] = []"
| "parsed_pcts (Stop_Requested # ts) = []"
| "parsed_pcts (Read_Error # ts) = []"
| "parsed_pcts (Read line exited # ts) =
     (if line = [] then (if exited then [] else parsed_pcts ts)
      else (case line_pct line of None \<Rightarrow> [] | Some p \<Rightarrow> [p]) @ parsed_pcts ts)"

text \<open>
  The phase reached from a phase by a run of percentages, and the phase changes announced
  on the way, as the thresholds 2 and 98 give them.
\<close>

definition exceeds :: "real \<Rightarrow> real list \<Rightarrow> bool" where
  "exceeds c ps \<longleftrightarrow> (\<exists>p\<in>set ps. c < p)"

definition phase_after :: "phase \<Rightarrow> real list \<Rightarrow> phase" where
  "phase_after ph ps =
     (if ph = Merge then Merge
      else if exceeds 98 ps then Merge
      else if ph = Song then Song
      else if exceeds 2 ps then Song
      else Banner)"

definition transitions_expected :: "phase \<Rightarrow> real list \<Rightarrow> event list" where
  "transitions_expected ph ps =
     (if ph = Banner \<and> exceeds 2 ps then [to_song_event] else [])
     @ (if ph \<noteq> Merge \<and> exceeds 98 ps then [to_merge_event] else [])"

text \<open>No line of the turns carries the marker of a file that is already there.\<close>

fun no_marker :: "tick list \<Rightarrow> bool" where
  "no_marker [] = True"
| "no_marker (Read line exited # ts) = (\<not> contains line already_marker \<and> no_marker ts)"
| "no_marker (t # ts) = no_marker ts"

text \<open>
  The percentages reported in the turns that the loop takes, as the claim on them reads
  with the marker line set apart: a parsed percentage is clamped to 100 and reported when
  it differs from the last one recorded, and recorded; a marker line reports 100 and
  records nothing.
\<close>

fun reported :: "real option \<Rightarrow> tick list \<Rightarrow> real list" where
  "reported lp [] = []"
| "reported lp (Stop_Requested # ts) = []"
| "reported lp (Read_Error # ts) = []"
| "reported lp (Read line exited # ts) =
     (if line = [] then (if exited then [] else reported lp ts)
      else if contains line already_marker then 100 # reported lp ts
      else
        (case line_pct line of
           None \<Rightarrow> reported lp ts
         | Some p \<Rightarrow>
             (if Some (min p 100) = lp then [] else [min p 100])
               @ reported (Some (min p 100)) ts))"

text \<open>A double that is not negative and not NaN; and one that moreover, when finite,
  lies inside the range.\<close>

fun fl_nonneg :: "fl \<Rightarrow> bool" where
  "fl_nonneg (Fin a) = (0 \<le> a)"
| "fl_nonneg PInf = True"
| "fl_nonneg NInf = False"
| "fl_nonneg NaN = False"

fun fl_good :: "fl \<Rightarrow> bool" where
  "fl_good (Fin a) = (0 \<le> a \<and> a < DOUBLE_EDGE)"
| "fl_good PInf = True"
| "fl_good NInf = False"
| "fl_good NaN = False"

text \<open>The total and the speed samples of a session are such doubles.\<close>

definition session_ok :: "session \<Rightarrow> bool" where
  "session_ok st \<longleftrightarrow>
     (case total_bytes st of None \<Rightarrow> True | Some t \<Rightarrow> fl_good t)
     \<and> list_all fl_good (speed_samples st)"

fun is_stage :: "event \<Rightarrow> bool" where
  "is_stage (Stage text t) = True"
| "is_stage (Progress s pct dl tb spd eta) = False"

fun is_error :: "event \<Rightarrow> bool" where
  "is_error (Stage text t) = (t = Error)"
| "is_error (Progress s pct dl tb spd eta) = False"

definition error_emitted :: "event list \<Rightarrow> bool" where
  "error_emitted evs = list_ex is_error evs"

text \<open>The percentages of the progress events of a list.\<close>

fun progress_pcts :: "event list \<Rightarrow> real list" where
  "progress_pcts [] = []"
| "progress_pcts (Stage text t # evs) = progress_pcts evs"
| "progress_pcts (Progress s pct dl tb spd eta # evs) = pct # progress_pcts evs"

text \<open>
  What holds of the ETA of a progress event: it is 0 when the average speed is 0 or the
  total is unknown (and with it the remaining bytes); it is the remaining bytes by the
  average speed when the speed is positive and the total known; it is neither negative nor
  NaN unless the total is \<open>inf\<close>; and with the total \<open>inf\<close> and a positive speed it is
  NaN.
\<close>

fun eta_ok :: "event \<Rightarrow> bool" where
  "eta_ok (Stage text t) = True"
| "eta_ok (Progress s pct dl tb spd eta) =
     ((spd = Fin 0 \<or> \<not> truthy tb \<longrightarrow> eta = Fin 0)
      \<and> (fl_pos spd \<and> truthy tb \<longrightarrow> eta = fl_div (fl_sub (the tb) dl) spd)
      \<and> (tb \<noteq> Some PInf \<longrightarrow> fl_nonneg eta)
      \<and> (tb = Some PInf \<and> fl_pos spd \<longrightarrow> eta = NaN))"

text \<open>The songs of the calls of \<open>download_song\<close>, and those listed for manual download.\<close>

fun invoked :: "effect list \<Rightarrow> string list" where
  "invoked [] = []"
| "invoked (Invoke s # effs) = s # invoked effs"
| "invoked (e # effs) = invoked effs"

fun manual_items :: "effect list \<Rightarrow> string list" where
  "manual_items [] = []"
| "manual_items (Log (Manual_Item s) t # effs) = s # manual_items effs"
| "manual_items (e # effs) = manual_items effs"

text \<open>Whether a call of \<open>download_song\<close> returns true.\<close>

definition attempt_ok :: "string \<Rightarrow> attempt \<Rightarrow> bool" where
  "attempt_ok song a =
     (case download_song song (a_launch_error a) (a_ticks a) (a_returncode a) of
        None \<Rightarrow> False
      | Some (ok, evs) \<Rightarrow> ok)"

text \<open>
  Environments of concrete runs: a call of \<open>download_song\<close> whose subprocess ends at
  once with exit code 1; one whose subprocess reports 100 percent and ends with exit code
  0; a loop turn that finds the run stopped; the same call at every turn, and one call at
  the first turn and another at the later ones; and a parsed document with a title and no
  entries.
\<close>

definition failing :: attempt where
  "failing = \<lparr>a_running = True, a_launch_error = None, a_ticks = [Read [] True],
     a_returncode = Some 1\<rparr>"

definition succeeding :: attempt where
  "succeeding = \<lparr>a_running = True, a_launch_error = None,
     a_ticks = [Read ''[download] 100% of 3.00MiB'' False, Read [] True],
     a_returncode = Some 0\<rparr>"

definition stopped :: attempt where
  "stopped = \<lparr>a_running = False, a_launch_error = None, a_ticks = [],
     a_returncode = None\<rparr>"

definition every :: "attempt \<Rightarrow> nat \<Rightarrow> attempt" where
  "every a j = a"

definition first_then :: "attempt \<Rightarrow> attempt \<Rightarrow> nat \<Rightarrow> attempt" where
  "first_then a b j = (if j = 0 then a else b)"

definition empty_mix :: "string \<Rightarrow> playlist_json option" where
  "empty_mix out = Some \<lparr>json_title = Some (Some ''Mix''), json_entries = []\<rparr>"

section \<open>Evaluation\<close>

lemmas parse_defs = already_marker_def match_done_def match_size_def match_speed_def
  match_unit_def is_digit_def is_space_def is_numdot_def py_float_def decimal_value_def
  decimal_def digit_value_def

lemmas session_defs = process_line_def read_size_def update_progress_def init_session_def
  sample_speed_def eta_of_def truthy_def Let_def

lemmas fl_defs = to_double_def DOUBLE_EDGE_def fl_sub_def signed_inf_def fl_truthy_def
  fl_sum_def

section \<open>Sanitised names\<close>

lemma strip_subset: "set (strip s) \<subseteq> set s"
  unfolding strip_def by (auto dest!: set_dropWhileD)

lemma rstrip_dot_subset: "set (rstrip_dot s) \<subseteq> set s"
  unfolding rstrip_dot_def by (auto dest!: set_dropWhileD)

text \<open>No character of \<open><>:"/\|?*#\<close> is left in a sanitised name.\<close>

lemma clean_name_no_illegal:
  "c \<in> set (clean_name name) \<Longrightarrow> c \<noteq> CHR ''#'' \<and> c \<notin> set illegal_chars"
proof (cases name)
  case None
  assume "c \<in> set (clean_name name)"
  with None show ?thesis by (auto simp: clean_name_def illegal_chars_def)
next
  case (Some n)
  assume a: "c \<in> set (clean_name name)"
  show ?thesis
  proof (cases "n = []")
    case True
    with a Some show ?thesis by (auto simp: clean_name_def illegal_chars_def)
  next
    case False
    let ?kept = "filter (\<lambda>c. c \<notin> set illegal_chars) (filter (\<lambda>c. c \<noteq> CHR ''#'') n)"
    from a Some False have "c \<in> set (rstrip_dot (strip ?kept))"
      by (simp add: clean_name_def Let_def)
    with rstrip_dot_subset strip_subset have "c \<in> set ?kept" by blast
    then show ?thesis by auto
  qed
qed

text \<open>
  C1. A name made only of removed characters is not replaced by \<open>Unknown\<close>: \<open>#\<close>
  becomes the empty string. And a name can end in whitespace: the dots are removed after
  the whitespace, so \<open>a .\<close> becomes \<open>a\<close> followed by a space.
\<close>

theorem clean_name_empty_and_trailing_space:
  "clean_name (Some ''#'') = [] \<and> clean_name (Some ''a .'') = ''a ''"
  by (simp add: clean_name_def strip_def rstrip_dot_def is_space_def illegal_chars_def)

section \<open>The title filter is a literal\<close>

lemma special_not_alnum: "c \<in> set re_special \<Longrightarrow> \<not> is_ascii_letter c \<and> \<not> is_digit c"
  by (auto simp: re_special_def is_ascii_letter_def is_digit_def)

lemma operators_special: "c \<in> set re_operators \<Longrightarrow> c \<in> set re_special"
  by (auto simp: re_operators_def re_special_def)

lemma backslash_special: "CHR 0x5C \<in> set re_special"
  by (simp add: re_special_def)

lemma re_tokens_plain:
  "c \<noteq> CHR 0x5C \<Longrightarrow> c \<notin> set re_operators \<Longrightarrow> re_tokens (c # cs) = Lit c # re_tokens cs"
  by (cases cs) auto

lemma re_tokens_escaped:
  "\<not> is_ascii_letter d \<Longrightarrow> \<not> is_digit d \<Longrightarrow>
   re_tokens (CHR 0x5C # d # cs) = Lit d # re_tokens cs"
  by simp

lemma re_tokens_escape: "re_tokens (re_escape s) = map Lit s"
proof (induction s)
  case Nil
  show ?case by simp
next
  case (Cons c s)
  show ?case
  proof (cases "c \<in> set re_special")
    case True
    then show ?thesis
      using special_not_alnum[OF True] Cons.IH
      by (simp del: re_tokens.simps add: re_tokens_escaped)
  next
    case False
    then have "c \<noteq> CHR 0x5C" "c \<notin> set re_operators"
      using backslash_special operators_special by auto
    then show ?thesis using False Cons.IH
      by (simp del: re_tokens.simps add: re_tokens_plain)
  qed
qed

text \<open>
  C3, as amended. The value of \<open>--match-title\<close> is the escaped name that
  \<open>download_song\<close> is given, and read as a regular expression it is that name character
  by character, with no operator in it. The name is the sanitised title: the run keeps no
  raw title.
\<close>

theorem title_filter_is_literal_song:
  "download_cmd executable out_template song ! 10 = ''--match-title''
   \<and> download_cmd executable out_template song ! 11 = safe_song song
   \<and> re_tokens (safe_song song) = map Lit song"
  by (simp add: download_cmd_def safe_song_def re_tokens_escape)

text \<open>
  C3, as stated, fails: for the raw title \<open>A:B\<close> the filter is the literal \<open>AB\<close>, which
  is not the raw title.
\<close>

theorem title_filter_not_raw_title:
  "map (\<lambda>s. re_tokens (safe_song s)) (song_titles [Some ''A:B'']) = [map Lit ''AB'']
   \<and> map Lit ''AB'' \<noteq> map Lit ''A:B''"
  by (simp add: song_titles_def safe_song_def clean_name_def strip_def rstrip_dot_def
      is_space_def illegal_chars_def re_special_def re_operators_def)

section \<open>The result of a download\<close>

lemma error_emitted_append [simp]:
  "error_emitted (xs @ ys) \<longleftrightarrow> error_emitted xs \<or> error_emitted ys"
  by (simp add: error_emitted_def)

lemma update_progress_no_error: "\<not> error_emitted (snd (update_progress song st pct speed))"
  by (simp add: update_progress_def error_emitted_def Let_def split: prod.splits)

lemma process_line_no_error: "\<not> error_emitted (snd (process_line song st line))"
  using update_progress_no_error
  by (simp add: process_line_def error_emitted_def Let_def split: option.splits prod.splits)

lemma read_loop_no_error: "\<not> error_emitted (snd (snd (read_loop song st ticks)))"
proof (induction ticks arbitrary: st)
  case Nil
  show ?case by (simp add: error_emitted_def)
next
  case (Cons t ticks)
  show ?case
  proof (cases t)
    case (Read line exited)
    obtain st1 evs1 where p: "process_line song st line = (st1, evs1)"
      by (cases "process_line song st line")
    obtain status st2 evs2 where r: "read_loop song st1 ticks = (status, st2, evs2)"
      by (cases "read_loop song st1 ticks")
    have "\<not> error_emitted evs1" using process_line_no_error[of song st line] p by simp
    moreover have "\<not> error_emitted evs2" using Cons.IH[of st1] r by simp
    ultimately show ?thesis
      using Read p r Cons.IH[of st] by (simp add: error_emitted_def)
  qed (simp_all add: error_emitted_def)
qed

lemma opening_no_error: "\<not> error_emitted opening_events"
  by (simp add: opening_events_def error_emitted_def)

text \<open>The call returns as soon as the launch fails or the loop is left.\<close>

lemma download_song_returns:
  "launch_error \<noteq> None \<or> fst (read_loop song init_session ticks) \<noteq> Reading \<Longrightarrow>
   \<exists>r. download_song song launch_error ticks returncode = Some r"
  by (cases "read_loop song init_session ticks"; cases "fst (read_loop song init_session ticks)")
    (auto simp: download_song_def split: option.splits)

text \<open>
  C2, as amended. A call that returns, returns true exactly when the process was launched,
  the loop was left by its end (not by a stop request), the exit code is zero and progress
  was seen. An error stage event is emitted exactly when the call returns false for a
  reason other than a stop request; on a stop request the call returns false and emits no
  error stage event.
\<close>

theorem download_song_disposition:
  assumes "download_song song launch_error ticks returncode = Some (ok, evs)"
    and "read_loop song init_session ticks = (status, st, es)"
  shows "(ok \<longleftrightarrow> launch_error = None \<and> status = Left \<and> returncode = Some 0 \<and> saw_progress st)
       \<and> (error_emitted evs \<longleftrightarrow> \<not> ok \<and> (launch_error \<noteq> None \<or> status \<noteq> Cancelled))"
proof (cases launch_error)
  case (Some e)
  with assms show ?thesis
    using opening_no_error by (auto simp: download_song_def error_emitted_def)
next
  case None
  have ne: "\<not> error_emitted es"
    using read_loop_no_error[of song init_session ticks] assms(2) by simp
  show ?thesis
  proof (cases status)
    case Reading
    with None assms show ?thesis by (simp add: download_song_def)
  next
    case Cancelled
    with None assms ne opening_no_error show ?thesis
      by (auto simp: download_song_def error_emitted_def)
  next
    case Left
    with None assms ne opening_no_error show ?thesis
      by (auto simp: download_song_def error_emitted_def split: if_splits)
  qed
qed

theorem download_song_disposition_witness:
  "download_song ''s'' None [Read ''50%'' False, Read [] True] (Some 0)
     = Some (True, opening_events @ [Stage ''Downloading banner'' Download,
         Stage ''Downloading song'' Download, Progress ''s'' 50 (Fin 0) None (Fin 0) (Fin 0),
         Stage ''Finalizing'' Final])
   \<and> read_loop ''s'' init_session [Read ''50%'' False, Read [] True]
     = (Left, \<lparr>total_bytes = None, last_pct = Some 50, speed_samples = [],
          saw_progress = True, phase = Song\<rparr>,
        [Stage ''Downloading song'' Download, Progress ''s'' 50 (Fin 0) None (Fin 0) (Fin 0)])
   \<and> \<not> error_emitted (opening_events @ [Stage ''Downloading banner'' Download,
         Stage ''Downloading song'' Download, Progress ''s'' 50 (Fin 0) None (Fin 0) (Fin 0),
         Stage ''Finalizing'' Final])"
proof -
  have r: "read_loop ''s'' init_session [Read ''50%'' False, Read [] True]
     = (Left, \<lparr>total_bytes = None, last_pct = Some 50, speed_samples = [],
          saw_progress = True, phase = Song\<rparr>,
        [Stage ''Downloading song'' Download, Progress ''s'' 50 (Fin 0) None (Fin 0) (Fin 0)])"
    by (simp add: parse_defs session_defs)
  have d: "download_song ''s'' None [Read ''50%'' False, Read [] True] (Some 0)
     = Some (True, opening_events @ [Stage ''Downloading banner'' Download,
         Stage ''Downloading song'' Download, Progress ''s'' 50 (Fin 0) None (Fin 0) (Fin 0),
         Stage ''Finalizing'' Final])"
    unfolding download_song_def r by simp
  show ?thesis using r d download_song_disposition[OF d r] by simp
qed

text \<open>
  C2, as stated, fails: a call stopped at the first turn of the loop returns false, and
  the events it has emitted hold no error stage event.
\<close>

theorem cancelled_download_emits_no_error:
  "download_song ''s'' None [Stop_Requested] (Some 0)
     = Some (False, opening_events @ [Stage ''Downloading banner'' Download])
   \<and> \<not> error_emitted (opening_events @ [Stage ''Downloading banner'' Download])"
  by (simp add: download_song_def opening_events_def error_emitted_def)

section \<open>The phases of a session\<close>

lemma process_line_marker:
  "contains line already_marker \<Longrightarrow>
   process_line song st line =
     (st\<lparr>saw_progress := True\<rparr>,
      [Progress song 100 (Fin 0) (Some (Fin 0)) (Fin 0) (Fin 0), Stage ''Already downloaded'' Final])"
  by (simp add: process_line_def)

lemma process_line_unparsed:
  "\<not> contains line already_marker \<Longrightarrow> search match_done line = None \<Longrightarrow>
   process_line song st line = (st\<lparr>total_bytes := read_size (total_bytes st) line\<rparr>, [])"
  by (simp add: process_line_def)

lemma process_line_parsed:
  "line_pct line = Some p \<Longrightarrow>
   process_line song st line
     = update_progress song
         (st\<lparr>total_bytes := read_size (total_bytes st) line, saw_progress := True\<rparr>) p
         (search match_speed line)"
  by (auto simp: line_pct_def process_line_def Let_def split: if_splits option.splits)

lemma line_pct_None:
  "line_pct line = None \<Longrightarrow>
   contains line already_marker \<or> search match_done line = None"
  by (simp add: line_pct_def split: option.splits if_splits)




lemma exceeds_Nil [simp]: "\<not> exceeds c []"
  by (simp add: exceeds_def)

lemma exceeds_single [simp]: "exceeds c [p] \<longleftrightarrow> c < p"
  by (simp add: exceeds_def)

lemma exceeds_append: "exceeds c (ps @ qs) \<longleftrightarrow> exceeds c ps \<or> exceeds c qs"
  by (auto simp: exceeds_def)

lemma exceeds_98_2:
  assumes "exceeds 98 ps"
  shows "exceeds 2 ps"
proof -
  from assms obtain p where p: "p \<in> set ps" "98 < p"
    unfolding exceeds_def by blast
  then have "2 < p" by linarith
  with p(1) show ?thesis unfolding exceeds_def by blast
qed

lemma phase_after_Nil [simp]: "phase_after ph [] = ph"
  by (cases ph) (simp_all add: phase_after_def)

lemma transitions_expected_Nil [simp]: "transitions_expected ph [] = []"
  by (simp add: transitions_expected_def)

lemma phase_after_append:
  "phase_after (phase_after ph ps) qs = phase_after ph (ps @ qs)"
  by (cases ph; cases "exceeds 98 ps"; cases "exceeds 2 ps"; cases "exceeds 98 qs")
    (simp_all add: phase_after_def exceeds_append)

lemma transitions_expected_append:
  "transitions_expected ph ps @ transitions_expected (phase_after ph ps) qs
     = transitions_expected ph (ps @ qs)"
  using exceeds_98_2[of ps] exceeds_98_2[of qs]
  by (cases ph; cases "exceeds 98 ps"; cases "exceeds 2 ps"; cases "exceeds 98 qs";
      cases "exceeds 2 qs")
    (simp_all add: phase_after_def transitions_expected_def exceeds_append)

lemma transitions_append [simp]: "transitions (xs @ ys) = transitions xs @ transitions ys"
  by (simp add: transitions_def)



lemma clamp_gt: "c < 100 \<Longrightarrow> (c < (if 100 < p then 100 else p)) = (c < (p::real))"
  by auto

lemma update_progress_phase_eq:
  "phase (fst (update_progress song st p sp))
     = (if 98 < p \<and> phase st \<noteq> Merge then Merge
        else if 2 < p \<and> phase st = Banner then Song else phase st)"
  by (cases "phase st") (simp_all add: update_progress_def Let_def case_prod_beta clamp_gt)

lemma update_progress_stages:
  "filter is_stage (snd (update_progress song st p sp))
     = (if 2 < p \<and> phase st = Banner then [to_song_event] else [])
       @ (if 98 < p \<and> phase st \<noteq> Merge then [to_merge_event] else [])"
  by (cases "phase st")
    (simp_all add: update_progress_def Let_def case_prod_beta clamp_gt to_song_event_def
      to_merge_event_def)

lemma transitions_stage: "transitions evs = transitions (filter is_stage evs)"
  by (induction evs) (auto simp: transitions_def to_song_event_def to_merge_event_def)

lemma update_progress_phase:
  "phase (fst (update_progress song st p sp)) = phase_after (phase st) [p]"
  unfolding update_progress_phase_eq by (cases "phase st") (simp_all add: phase_after_def)

lemma update_progress_transitions:
  "transitions (snd (update_progress song st p sp)) = transitions_expected (phase st) [p]"
  unfolding transitions_stage[of "snd (update_progress song st p sp)"] update_progress_stages
  by (cases "phase st") (simp_all add: transitions_def transitions_expected_def
      to_song_event_def to_merge_event_def)

lemma process_line_phase:
  "phase (fst (process_line song st line))
     = phase_after (phase st) (case line_pct line of None \<Rightarrow> [] | Some p \<Rightarrow> [p])"
proof (cases "line_pct line")
  case None
  then consider "contains line already_marker"
    | "\<not> contains line already_marker" "search match_done line = None"
    using line_pct_None[of line] by auto
  then show ?thesis
  proof cases
    case 1
    then show ?thesis using None
      by (cases "phase st") (simp_all add: process_line_marker phase_after_def)
  next
    case 2
    from process_line_unparsed[OF 2, of song st]
    show ?thesis using None by (cases "phase st") (simp_all add: phase_after_def)
  qed
next
  case (Some p)
  from process_line_parsed[OF Some, of song st]
  show ?thesis using Some update_progress_phase by simp
qed

lemma process_line_transitions:
  "transitions (snd (process_line song st line))
     = transitions_expected (phase st) (case line_pct line of None \<Rightarrow> [] | Some p \<Rightarrow> [p])"
proof (cases "line_pct line")
  case None
  then consider "contains line already_marker"
    | "\<not> contains line already_marker" "search match_done line = None"
    using line_pct_None[of line] by auto
  then show ?thesis
  proof cases
    case 1
    then show ?thesis using None
      by (simp add: process_line_marker transitions_def transitions_expected_def
          to_song_event_def to_merge_event_def)
  next
    case 2
    from process_line_unparsed[OF 2, of song st]
    show ?thesis using None by (simp add: transitions_def transitions_expected_def)
  qed
next
  case (Some p)
  from process_line_parsed[OF Some, of song st]
  show ?thesis using Some update_progress_transitions by simp
qed

lemma read_loop_phases:
  "phase (fst (snd (read_loop song st ticks))) = phase_after (phase st) (parsed_pcts ticks)
   \<and> transitions (snd (snd (read_loop song st ticks)))
       = transitions_expected (phase st) (parsed_pcts ticks)"
proof (induction ticks arbitrary: st)
  case Nil
  show ?case by (simp add: transitions_def)
next
  case (Cons t ticks)
  show ?case
  proof (cases t)
    case Stop_Requested
    then show ?thesis by (simp add: transitions_def)
  next
    case Read_Error
    then show ?thesis by (simp add: transitions_def)
  next
    case (Read line exited)
    show ?thesis
    proof (cases "line = []")
      case True
      then show ?thesis using Read Cons.IH[of st] by (simp add: transitions_def)
    next
      case False
      obtain st1 evs1 where p: "process_line song st line = (st1, evs1)"
        by (cases "process_line song st line")
      obtain status st2 evs2 where r: "read_loop song st1 ticks = (status, st2, evs2)"
        by (cases "read_loop song st1 ticks")
      let ?ps = "case line_pct line of None \<Rightarrow> [] | Some p \<Rightarrow> [p]"
      have 1: "phase st1 = phase_after (phase st) ?ps"
        using process_line_phase[of song st line] p by simp
      have 2: "transitions evs1 = transitions_expected (phase st) ?ps"
        using process_line_transitions[of song st line] p by simp
      have 3: "phase st2 = phase_after (phase st1) (parsed_pcts ticks)"
        and 4: "transitions evs2 = transitions_expected (phase st1) (parsed_pcts ticks)"
        using Cons.IH[of st1] r by simp_all
      show ?thesis
        using Read False p r 1 2 3 4
        by (simp add: phase_after_append transitions_expected_append)
    qed
  qed
qed

text \<open>
  C4. Whatever the loop reads, the stage events of the phase changes that it emits are: the
  change to Song once, if some parsed percentage exceeds 2, and then the change to Merge
  once, if some parsed percentage exceeds 98. The phase it stands in is Merge, Song or
  Banner accordingly. As this holds of every run of turns, hence of every prefix of one, a
  change is announced in the turn of the first percentage beyond its threshold and never
  again. No line ever moves the phase backwards.
\<close>

theorem phase_transitions_once:
  "transitions (snd (snd (read_loop song init_session ticks)))
     = (if \<exists>p\<in>set (parsed_pcts ticks). 2 < p then [to_song_event] else [])
       @ (if \<exists>p\<in>set (parsed_pcts ticks). 98 < p then [to_merge_event] else [])
   \<and> phase (fst (snd (read_loop song init_session ticks)))
     = (if \<exists>p\<in>set (parsed_pcts ticks). 98 < p then Merge
        else if \<exists>p\<in>set (parsed_pcts ticks). 2 < p then Song else Banner)
   \<and> (\<forall>st line. rank (phase st) \<le> rank (phase (fst (process_line song st line))))"
proof -
  have "rank (phase st) \<le> rank (phase (fst (process_line song st line)))" for st line
    unfolding process_line_phase by (cases "phase st") (auto simp: phase_after_def)
  then show ?thesis
    using read_loop_phases[of song init_session ticks]
    by (simp add: init_session_def phase_after_def transitions_expected_def exceeds_def)
qed

theorem phase_transitions_once_witness:
  "parsed_pcts [Read ''1%'' False, Read ''3%'' False, Read ''50%'' False,
      Read ''99%'' False, Read ''99%'' False, Read ''100%'' False] = [1, 3, 50, 99, 99, 100]
   \<and> transitions (snd (snd (read_loop ''s'' init_session
        [Read ''1%'' False, Read ''3%'' False, Read ''50%'' False,
         Read ''99%'' False, Read ''99%'' False, Read ''100%'' False])))
     = [to_song_event, to_merge_event]
   \<and> phase (fst (snd (read_loop ''s'' init_session
        [Read ''1%'' False, Read ''3%'' False, Read ''50%'' False,
         Read ''99%'' False, Read ''99%'' False, Read ''100%'' False]))) = Merge"
  using phase_transitions_once[of "''s''" "[Read ''1%'' False, Read ''3%'' False,
    Read ''50%'' False, Read ''99%'' False, Read ''99%'' False, Read ''100%'' False]"]
  by (simp add: line_pct_def parse_defs)


section \<open>Reported percentages\<close>

lemma update_progress_pcts:
  "progress_pcts (snd (update_progress song st p sp))
     = (if Some (min p 100) = last_pct st then [] else [min p 100])"
  by (simp add: update_progress_def Let_def case_prod_beta min_def)

lemma update_progress_last:
  "last_pct (fst (update_progress song st p sp)) = Some (min p 100)"
  by (simp add: update_progress_def Let_def case_prod_beta min_def)

lemma process_line_pcts:
  "\<not> contains line already_marker \<Longrightarrow>
   progress_pcts (snd (process_line song st line))
     = (case line_pct line of None \<Rightarrow> []
        | Some p \<Rightarrow> if Some (min p 100) = last_pct st then [] else [min p 100])"
proof (cases "line_pct line")
  case None
  assume nm: "\<not> contains line already_marker"
  with None line_pct_None[of line] have "search match_done line = None" by simp
  from process_line_unparsed[OF nm this, of song st] None show ?thesis by simp
next
  case (Some p)
  from process_line_parsed[OF Some, of song st] Some show ?thesis
    by (simp add: update_progress_pcts)
qed

lemma process_line_last:
  "\<not> contains line already_marker \<Longrightarrow>
   last_pct (fst (process_line song st line))
     = (case line_pct line of None \<Rightarrow> last_pct st | Some p \<Rightarrow> Some (min p 100))"
proof (cases "line_pct line")
  case None
  assume nm: "\<not> contains line already_marker"
  with None line_pct_None[of line] have "search match_done line = None" by simp
  from process_line_unparsed[OF nm this, of song st] None show ?thesis by simp
next
  case (Some p)
  from process_line_parsed[OF Some, of song st] Some show ?thesis
    by (simp add: update_progress_last)
qed

lemma progress_pcts_append [simp]:
  "progress_pcts (xs @ ys) = progress_pcts xs @ progress_pcts ys"
  by (induction xs rule: progress_pcts.induct) simp_all

lemma read_loop_distinct:
  "no_marker ticks \<Longrightarrow>
   distinct_adj (progress_pcts (snd (snd (read_loop song st ticks))))
   \<and> (progress_pcts (snd (snd (read_loop song st ticks))) \<noteq> [] \<longrightarrow>
        Some (hd (progress_pcts (snd (snd (read_loop song st ticks))))) \<noteq> last_pct st)"
proof (induction ticks arbitrary: st)
  case Nil
  show ?case by simp
next
  case (Cons t ticks)
  show ?case
  proof (cases t)
    case Stop_Requested
    then show ?thesis by simp
  next
    case Read_Error
    then show ?thesis by simp
  next
    case (Read line exited)
    show ?thesis
    proof (cases "line = []")
      case True
      then show ?thesis using Read Cons.IH[of st] Cons.prems by simp
    next
      case False
      from Cons.prems Read have nm: "\<not> contains line already_marker" and nt: "no_marker ticks"
        by simp_all
      obtain st1 evs1 where p: "process_line song st line = (st1, evs1)"
        by (cases "process_line song st line")
      obtain status st2 evs2 where r: "read_loop song st1 ticks = (status, st2, evs2)"
        by (cases "read_loop song st1 ticks")
      have ih: "distinct_adj (progress_pcts evs2)"
        "progress_pcts evs2 \<noteq> [] \<longrightarrow> Some (hd (progress_pcts evs2)) \<noteq> last_pct st1"
        using Cons.IH[OF nt, of st1] r by simp_all
      have e1: "progress_pcts evs1 = (case line_pct line of None \<Rightarrow> []
          | Some q \<Rightarrow> if Some (min q 100) = last_pct st then [] else [min q 100])"
        using process_line_pcts[OF nm, of song st] p by simp
      have l1: "last_pct st1 = (case line_pct line of None \<Rightarrow> last_pct st
          | Some q \<Rightarrow> Some (min q 100))"
        using process_line_last[OF nm, of song st] p by simp
      have res: "snd (snd (read_loop song st (t # ticks))) = evs1 @ evs2"
        using Read False p r by simp
      show ?thesis
      proof (cases "line_pct line")
        case None
        with e1 l1 ih res show ?thesis by simp
      next
        case (Some q)
        show ?thesis
        proof (cases "Some (min q 100) = last_pct st")
          case True
          with Some e1 l1 ih res show ?thesis by simp
        next
          case False
          with Some e1 have "progress_pcts evs1 = [min q 100]" by simp
          moreover from Some l1 have "last_pct st1 = Some (min q 100)" by simp
          ultimately show ?thesis using ih res False
            by (cases "progress_pcts evs2") (auto simp: distinct_adj_Cons)
        qed
      qed
    qed
  qed
qed

lemma process_line_le_100:
  "\<forall>p\<in>set (progress_pcts (snd (process_line song st line))). p \<le> 100"
proof (cases "contains line already_marker")
  case True
  then show ?thesis by (simp add: process_line_marker)
next
  case False
  show ?thesis
  proof (cases "line_pct line")
    case None
    with False show ?thesis by (simp add: process_line_pcts)
  next
    case (Some q)
    have "min q 100 \<le> 100" by simp
    with False Some show ?thesis by (simp add: process_line_pcts)
  qed
qed

lemma read_loop_le_100:
  "\<forall>p\<in>set (progress_pcts (snd (snd (read_loop song st ticks)))). p \<le> 100"
proof (induction ticks arbitrary: st)
  case Nil
  show ?case by simp
next
  case (Cons t ticks)
  show ?case
  proof (cases t)
    case (Read line exited)
    obtain st1 evs1 where p: "process_line song st line = (st1, evs1)"
      by (cases "process_line song st line")
    obtain status st2 evs2 where r: "read_loop song st1 ticks = (status, st2, evs2)"
      by (cases "read_loop song st1 ticks")
    show ?thesis
      using Read p r Cons.IH[of st1] Cons.IH[of st] process_line_le_100[of song st line]
      by auto
  qed simp_all
qed


lemma process_line_marker_pcts:
  "contains line already_marker \<Longrightarrow>
   progress_pcts (snd (process_line song st line)) = [100]
   \<and> last_pct (fst (process_line song st line)) = last_pct st"
  by (simp add: process_line_marker)

lemma read_loop_reported:
  "progress_pcts (snd (snd (read_loop song st ticks))) = reported (last_pct st) ticks"
proof (induction ticks arbitrary: st)
  case Nil
  show ?case by simp
next
  case (Cons t ticks)
  show ?case
  proof (cases t)
    case Stop_Requested
    then show ?thesis by simp
  next
    case Read_Error
    then show ?thesis by simp
  next
    case (Read line exited)
    show ?thesis
    proof (cases "line = []")
      case True
      then show ?thesis using Read Cons.IH[of st] by simp
    next
      case False
      obtain st1 evs1 where p: "process_line song st line = (st1, evs1)"
        by (cases "process_line song st line")
      obtain status st2 evs2 where r: "read_loop song st1 ticks = (status, st2, evs2)"
        by (cases "read_loop song st1 ticks")
      have ih: "progress_pcts evs2 = reported (last_pct st1) ticks"
        using Cons.IH[of st1] r by simp
      have res: "progress_pcts (snd (snd (read_loop song st (t # ticks))))
          = progress_pcts evs1 @ progress_pcts evs2"
        using Read False p r by simp
      show ?thesis
      proof (cases "contains line already_marker")
        case True
        from process_line_marker_pcts[OF True, of song st] p
        have "progress_pcts evs1 = [100]" "last_pct st1 = last_pct st" by simp_all
        with res ih Read False True show ?thesis by simp
      next
        case nm: False
        from process_line_pcts[OF nm, of song st] process_line_last[OF nm, of song st] p
        have e1: "progress_pcts evs1 = (case line_pct line of None \<Rightarrow> []
            | Some q \<Rightarrow> if Some (min q 100) = last_pct st then [] else [min q 100])"
          and l1: "last_pct st1 = (case line_pct line of None \<Rightarrow> last_pct st
            | Some q \<Rightarrow> Some (min q 100))"
          by simp_all
        show ?thesis
        proof (cases "line_pct line")
          case None
          with e1 l1 res ih Read False nm show ?thesis by simp
        next
          case (Some q)
          with e1 l1 res ih Read False nm show ?thesis by simp
        qed
      qed
    qed
  qed
qed

text \<open>
  C5, as amended. From any session state, the percentages reported over a run of the loop
  are exactly those of \<^const>\<open>reported\<close>, started at the percentage last reported: a
  parsed percentage is clamped to 100 and is reported exactly when the clamped value
  differs from the percentage last reported, which it then replaces; a line that carries
  the marker of a file already downloaded reports 100 whatever was reported last, and
  leaves the percentage last reported as it was; any other line reports nothing and
  leaves it as it was. No reported percentage exceeds 100, and in a session without a
  marker line no two consecutive reported percentages are equal.
\<close>

theorem progress_deduplicated:
  "progress_pcts (snd (snd (read_loop song st ticks))) = reported (last_pct st) ticks
   \<and> (contains line already_marker \<longrightarrow>
        progress_pcts (snd (process_line song st line)) = [100]
        \<and> last_pct (fst (process_line song st line)) = last_pct st)
   \<and> (\<not> contains line already_marker \<longrightarrow>
        progress_pcts (snd (process_line song st line))
          = (case line_pct line of None \<Rightarrow> []
             | Some p \<Rightarrow> if Some (min p 100) = last_pct st then [] else [min p 100])
        \<and> last_pct (fst (process_line song st line))
          = (case line_pct line of None \<Rightarrow> last_pct st | Some p \<Rightarrow> Some (min p 100)))
   \<and> (\<forall>q\<in>set (progress_pcts (snd (snd (read_loop song st ticks)))). q \<le> 100)
   \<and> (no_marker ticks \<longrightarrow>
        distinct_adj (progress_pcts (snd (snd (read_loop song st ticks)))))"
  using read_loop_reported[of song st ticks] process_line_marker_pcts[of line song st]
    process_line_pcts[of line song st] process_line_last[of line song st]
    read_loop_le_100[of song st ticks] read_loop_distinct[of ticks song st]
  by simp

theorem progress_deduplicated_witness:
  "no_marker [Read ''50%'' False, Read ''50%'' False, Read ''150%'' False, Read ''100%'' False]
   \<and> \<not> contains ''150%'' already_marker
   \<and> contains ''[download] s.mp3 has already been downloaded'' already_marker
   \<and> progress_pcts (snd (snd (read_loop ''s'' init_session
        [Read ''50%'' False, Read ''50%'' False, Read ''150%'' False, Read ''100%'' False])))
      = [50, 100]
   \<and> reported None
        [Read ''50%'' False, Read ''50%'' False, Read ''150%'' False, Read ''100%'' False]
      = [50, 100]
   \<and> distinct_adj [50, 100 :: real]"
  using progress_deduplicated[of "''s''" init_session
    "[Read ''50%'' False, Read ''50%'' False, Read ''150%'' False, Read ''100%'' False]"
    "''150%''"]
    progress_deduplicated[of "''s''" init_session "[]"
      "''[download] s.mp3 has already been downloaded''"]
  by (simp add: parse_defs session_defs fl_defs line_pct_def)

text \<open>
  C5, as stated, fails: the marker line reports 100 without a look at the percentage last
  reported and without recording it, so that a following line at 100 percent reports 100
  again.
\<close>

theorem repeated_percentage_after_marker:
  "progress_pcts (snd (snd (read_loop ''s'' init_session
     [Read ''[download] s.mp3 has already been downloaded'' False,
      Read ''[download] 100% of 3.45MiB'' False]))) = [100, 100]
   \<and> \<not> distinct_adj [100, 100 :: real]"
  by (simp add: parse_defs session_defs fl_defs)


section \<open>Lines without a percentage\<close>

text \<open>
  C9, as amended. A line in which no percentage is found, whether or not it holds a
  speed, is handled in one of two ways. With the marker of a file already downloaded it
  sets \<open>saw_progress\<close>, emits the progress event at 100 percent and the stage event of the
  finished file, and changes nothing else. Without the marker it emits no event and
  changes nothing but the total size, which is read from the line when the line holds
  one; \<open>saw_progress\<close> stays as it was. In both cases the window of speed samples, the
  percentage last reported and the phase are left as they were.
\<close>

theorem line_without_percentage_keeps_window:
  assumes "search match_done line = None"
  shows "process_line song st line
           = (if contains line already_marker then
                (st\<lparr>saw_progress := True\<rparr>,
                 [Progress song 100 (Fin 0) (Some (Fin 0)) (Fin 0) (Fin 0),
                  Stage ''Already downloaded'' Final])
              else (st\<lparr>total_bytes := read_size (total_bytes st) line\<rparr>, []))
       \<and> speed_samples (fst (process_line song st line)) = speed_samples st
       \<and> last_pct (fst (process_line song st line)) = last_pct st
       \<and> phase (fst (process_line song st line)) = phase st
       \<and> (\<not> contains line already_marker \<longrightarrow>
            saw_progress (fst (process_line song st line)) = saw_progress st
            \<and> snd (process_line song st line) = [])"
proof (cases "contains line already_marker")
  case True
  then show ?thesis by (simp add: process_line_marker)
next
  case False
  from process_line_unparsed[OF False assms, of song st] False show ?thesis by simp
qed

theorem line_without_percentage_keeps_window_witness:
  "search match_done ''[download] Destination at 1.20MiB/s of 3.00MiB'' = None
   \<and> search match_speed ''[download] Destination at 1.20MiB/s of 3.00MiB'' = Some (''1.20'', MiB)
   \<and> \<not> contains ''[download] Destination at 1.20MiB/s of 3.00MiB'' already_marker
   \<and> process_line ''s'' init_session ''[download] Destination at 1.20MiB/s of 3.00MiB''
      = (init_session\<lparr>total_bytes := Some (Fin 3145728)\<rparr>, [])
   \<and> saw_progress (fst (process_line ''s'' init_session
        ''[download] Destination at 1.20MiB/s of 3.00MiB'')) = False"
proof -
  have d: "search match_done ''[download] Destination at 1.20MiB/s of 3.00MiB'' = None"
    by (simp add: parse_defs)
  show ?thesis
    using d line_without_percentage_keeps_window[OF d, of "''s''" init_session]
    by (simp add: parse_defs session_defs fl_defs)
qed

text \<open>
  C9, as stated, fails: a line with a speed, without a percentage, but with the marker,
  emits a progress event and a stage event.
\<close>

theorem marker_line_with_speed_emits_events:
  "search match_speed ''a has already been downloaded at 1MiB/s'' = Some (''1'', MiB)
   \<and> search match_done ''a has already been downloaded at 1MiB/s'' = None
   \<and> snd (process_line ''s'' init_session ''a has already been downloaded at 1MiB/s'')
      = [Progress ''s'' 100 (Fin 0) (Some (Fin 0)) (Fin 0) (Fin 0),
         Stage ''Already downloaded'' Final]"
  by (simp add: parse_defs session_defs)


section \<open>A first percentage beyond both thresholds\<close>

lemma read_loop_append:
  "fst (read_loop song st pre) = Reading \<Longrightarrow>
   read_loop song st (pre @ rest)
     = (case read_loop song (fst (snd (read_loop song st pre))) rest of
          (status, st2, evs2) \<Rightarrow> (status, st2, snd (snd (read_loop song st pre)) @ evs2))"
proof (induction pre arbitrary: st)
  case Nil
  show ?case by (simp split: prod.splits)
next
  case (Cons t pre)
  show ?case
  proof (cases t)
    case Stop_Requested
    with Cons.prems show ?thesis by simp
  next
    case Read_Error
    with Cons.prems show ?thesis by simp
  next
    case (Read line exited)
    show ?thesis
    proof (cases "line = []")
      case True
      with Read Cons.prems have ne: "\<not> exited" and rd: "fst (read_loop song st pre) = Reading"
        by (auto split: if_splits)
      from Cons.IH[OF rd] Read True ne show ?thesis by simp
    next
      case False
      obtain st1 evs1 where p: "process_line song st line = (st1, evs1)"
        by (cases "process_line song st line")
      from Cons.prems Read False p have rd: "fst (read_loop song st1 pre) = Reading"
        by (simp split: prod.splits)
      from Cons.IH[OF rd] Read False p show ?thesis
        by (simp split: prod.splits)
    qed
  qed
qed

text \<open>
  C10. When the loop is still reading and has parsed no percentage yet, a line whose
  percentage exceeds 98 makes it emit, in that one turn, the stage event of the change to
  Song and then that of the change to Merge, and no other stage event; the phase is Merge
  afterwards.
\<close>

theorem both_transitions_in_one_update:
  assumes "fst (read_loop song init_session pre) = Reading"
    and "parsed_pcts pre = []"
    and "line \<noteq> []"
    and "line_pct line = Some p"
    and "98 < p"
  shows "\<exists>st' new.
           read_loop song init_session (pre @ [Read line exited])
             = (Reading, st', snd (snd (read_loop song init_session pre)) @ new)
           \<and> filter is_stage new = [to_song_event, to_merge_event]
           \<and> phase st' = Merge"
proof -
  let ?st = "fst (snd (read_loop song init_session pre))"
  have ph: "phase ?st = Banner"
    using read_loop_phases[of song init_session pre] assms(2) by (simp add: init_session_def)
  let ?st1 = "?st\<lparr>total_bytes := read_size (total_bytes ?st) line, saw_progress := True\<rparr>"
  have pl: "process_line song ?st line = update_progress song ?st1 p (search match_speed line)"
    by (rule process_line_parsed[OF assms(4)])
  obtain st' new where u: "update_progress song ?st1 p (search match_speed line) = (st', new)"
    by (cases "update_progress song ?st1 p (search match_speed line)")
  have s: "filter is_stage new = [to_song_event, to_merge_event]"
    using update_progress_stages[of song ?st1 p "search match_speed line"] u ph assms(5)
    by simp
  have m: "phase st' = Merge"
    using update_progress_phase_eq[of song ?st1 p "search match_speed line"] u ph assms(5)
    by simp
  have "read_loop song init_session (pre @ [Read line exited])
          = (Reading, st', snd (snd (read_loop song init_session pre)) @ new)"
    using read_loop_append[OF assms(1), of "[Read line exited]"] assms(3) pl u by simp
  with s m show ?thesis by blast
qed


theorem both_transitions_in_one_update_witness:
  "fst (read_loop ''s'' init_session [Read ''[download] Destination: s.webm'' False]) = Reading
   \<and> parsed_pcts [Read ''[download] Destination: s.webm'' False] = []
   \<and> line_pct ''[download]  99.0% of 3.00MiB'' = Some 99
   \<and> read_loop ''s'' init_session
       ([Read ''[download] Destination: s.webm'' False]
        @ [Read ''[download]  99.0% of 3.00MiB'' False])
     = (Reading,
        \<lparr>total_bytes = Some (Fin 3145728), last_pct = Some 99, speed_samples = [],
           saw_progress = True, phase = Merge\<rparr>,
        [to_song_event, to_merge_event,
         Progress ''s'' 99 (Fin (3145728 * (99 / 100))) (Some (Fin 3145728)) (Fin 0)
           (Fin 0)])"
proof -
  have a: "fst (read_loop ''s'' init_session [Read ''[download] Destination: s.webm'' False])
             = Reading"
    by (simp add: parse_defs session_defs)
  have b: "parsed_pcts [Read ''[download] Destination: s.webm'' False] = []"
    by (simp add: line_pct_def parse_defs)
  have c: "''[download]  99.0% of 3.00MiB'' \<noteq> []" by simp
  have d: "line_pct ''[download]  99.0% of 3.00MiB'' = Some 99"
    by (simp add: line_pct_def parse_defs)
  have e: "(98::real) < 99" by simp
  show ?thesis
    using a b d both_transitions_in_one_update[OF a b c d e, of False]
    by (simp add: parse_defs session_defs fl_defs to_song_event_def to_merge_event_def)
qed


section \<open>The estimated time\<close>

text \<open>A line with a run of one character: what the matchers make of the run.\<close>

lemma contains_replicate:
  "c \<noteq> q \<Longrightarrow> contains (replicate n c @ r) (q # qs) = contains r (q # qs)"
  by (induction n) simp_all

lemma search_replicate:
  "(\<And>s. m (c # s) = None) \<Longrightarrow> search m (replicate n c @ r) = search m r"
  by (induction n) simp_all

lemma takeWhile_replicate_append:
  "P c \<Longrightarrow> takeWhile P (replicate n c @ r) = replicate n c @ takeWhile P r"
  by (induction n) simp_all

lemma dropWhile_replicate_append:
  "P c \<Longrightarrow> dropWhile P (replicate n c @ r) = dropWhile P r"
  by (induction n) simp_all

lemma takeWhile_replicate: "P c \<Longrightarrow> takeWhile P (replicate n c) = replicate n c"
  by (induction n) simp_all

lemma dropWhile_replicate: "P c \<Longrightarrow> dropWhile P (replicate n c) = []"
  by (induction n) simp_all

lemma foldl_decimal_zeros:
  "foldl (\<lambda>a c. 10 * a + digit_value c) a (replicate n (CHR ''0'')) = a * 10 ^ n"
  by (induction n arbitrary: a) (simp_all add: digit_value_def)

lemma decimal_zeros: "decimal (d # replicate n (CHR ''0'')) = digit_value d * 10 ^ n"
  by (simp add: decimal_def foldl_decimal_zeros)

lemma py_float_overflow:
  "py_float (CHR ''1'' # replicate 309 (CHR ''0'')) = Some PInf"
proof -
  have d: "is_digit (CHR ''0'')" "is_digit (CHR ''1'')" by (simp_all add: is_digit_def)
  have v: "decimal_value (CHR ''1'' # replicate 309 (CHR ''0'')) = Some (10 ^ 309)"
    by (simp add: decimal_value_def d takeWhile_replicate dropWhile_replicate decimal_zeros
        digit_value_def)
  show ?thesis
    by (simp add: py_float_def v to_double_def DOUBLE_EDGE_def)
qed

lemma overflowing_line:
  "\<not> contains (''50% of 1'' @ replicate 309 (CHR ''0'') @ ''MiB at 1.00MiB/s'') already_marker
   \<and> search match_size (''50% of 1'' @ replicate 309 (CHR ''0'') @ ''MiB at 1.00MiB/s'')
       = Some (CHR ''1'' # replicate 309 (CHR ''0''), MiB)
   \<and> search match_done (''50% of 1'' @ replicate 309 (CHR ''0'') @ ''MiB at 1.00MiB/s'')
       = Some ''50''
   \<and> search match_speed (''50% of 1'' @ replicate 309 (CHR ''0'') @ ''MiB at 1.00MiB/s'')
       = Some (''1.00'', MiB)"
proof -
  have n: "is_numdot (CHR ''0'')" by (simp add: is_numdot_def is_digit_def)
  have s: "\<And>s. match_speed (CHR ''0'' # s) = None" by (simp add: match_speed_def)
  have 1: "\<not> contains (''50% of 1'' @ replicate 309 (CHR ''0'') @ ''MiB at 1.00MiB/s'')
             already_marker"
    by (simp add: already_marker_def contains_replicate)
  have 2: "search match_size (''50% of 1'' @ replicate 309 (CHR ''0'') @ ''MiB at 1.00MiB/s'')
       = Some (CHR ''1'' # replicate 309 (CHR ''0''), MiB)"
    by (simp add: match_size_def match_unit_def is_space_def is_numdot_def is_digit_def
        takeWhile_replicate_append[of is_numdot, OF n] dropWhile_replicate_append[of is_numdot, OF n])
  have 3: "search match_done (''50% of 1'' @ replicate 309 (CHR ''0'') @ ''MiB at 1.00MiB/s'')
       = Some ''50''"
    by (simp add: match_done_def is_digit_def)
  have 4: "search match_speed (''50% of 1'' @ replicate 309 (CHR ''0'') @ ''MiB at 1.00MiB/s'')
       = Some (''1.00'', MiB)"
    by (simp add: match_speed_def match_unit_def is_space_def is_numdot_def is_digit_def
        search_replicate[of match_speed, OF s])
  from 1 2 3 4 show ?thesis by (intro conjI)
qed

lemma DOUBLE_EDGE_pos: "0 < DOUBLE_EDGE"
  by (simp add: DOUBLE_EDGE_def)

lemma to_double_Fin: "- DOUBLE_EDGE < x \<Longrightarrow> x < DOUBLE_EDGE \<Longrightarrow> to_double x = Fin x"
  by (simp add: to_double_def)

lemma to_double_good: "0 \<le> x \<Longrightarrow> fl_good (to_double x)"
  using DOUBLE_EDGE_pos by (simp add: to_double_def)

lemma decimal_value_nonneg: "decimal_value s = Some v \<Longrightarrow> 0 \<le> v"
  by (auto simp: decimal_value_def Let_def split: list.splits if_splits)

lemma py_float_good: "py_float s = Some v \<Longrightarrow> fl_good v"
  using decimal_value_nonneg[of s] to_double_good
  by (auto simp: py_float_def split: option.splits)

lemma SIZE_MULT_pos: "0 < SIZE_MULT u"
  by (cases u) simp_all

lemma fl_mul_good: "fl_good x \<Longrightarrow> 0 < m \<Longrightarrow> fl_good (fl_mul x (Fin m))"
  by (cases x) (simp_all add: to_double_good signed_inf_def)

lemma fl_add_good: "fl_good x \<Longrightarrow> fl_good y \<Longrightarrow> fl_good (fl_add x y)"
  by (cases x; cases y) (simp_all add: to_double_good)

lemma foldl_add_good:
  "fl_good acc \<Longrightarrow> list_all fl_good xs \<Longrightarrow> fl_good (foldl fl_add acc xs)"
  by (induction xs arbitrary: acc) (simp_all add: fl_add_good)

lemma fl_sum_good: "list_all fl_good xs \<Longrightarrow> fl_good (fl_sum xs)"
  using foldl_add_good[of "Fin 0" xs] DOUBLE_EDGE_pos by (simp add: fl_sum_def)

lemma fl_div_good: "fl_good x \<Longrightarrow> 0 < n \<Longrightarrow> fl_good (fl_div x (Fin n))"
  by (cases x) (simp_all add: to_double_good)

lemma list_all_tl: "list_all P xs \<Longrightarrow> list_all P (tl xs)"
  by (cases xs) simp_all

lemma sample_speed_good:
  assumes "list_all fl_good samples"
  shows "list_all fl_good (fst (sample_speed samples sp))
         \<and> fl_good (snd (sample_speed samples sp))"
proof (cases sp)
  case None
  with assms DOUBLE_EDGE_pos show ?thesis by (simp add: sample_speed_def)
next
  case (Some gu)
  obtain g u where gu: "gu = (g, u)" by (cases gu)
  show ?thesis
  proof (cases "py_float g")
    case None
    with Some gu assms DOUBLE_EDGE_pos show ?thesis by (simp add: sample_speed_def)
  next
    case (Some v)
    define s1 where "s1 = samples @ [fl_mul v (Fin (SIZE_MULT u))]"
    define s2 where "s2 = (if length s1 > 10 then tl s1 else s1)"
    have g1: "list_all fl_good s1"
      using assms fl_mul_good[OF py_float_good[OF Some] SIZE_MULT_pos[of u]]
      by (simp add: s1_def)
    have g2: "list_all fl_good s2"
      using g1 list_all_tl[OF g1] by (simp add: s2_def)
    have "length s1 = Suc (length samples)" by (simp add: s1_def)
    then have "0 < length s2" by (cases "10 < length s1") (auto simp: s2_def)
    then have n: "0 < real (length s2)" by simp
    have r: "sample_speed samples sp = (s2, fl_div (fl_sum s2) (Fin (real (length s2))))"
      using Some \<open>sp = Some gu\<close> gu
      by (simp add: sample_speed_def Let_def s1_def s2_def)
    show ?thesis
      using g2 fl_div_good[OF fl_sum_good[OF g2] n] by (simp add: r)
  qed
qed

lemma read_size_good:
  assumes "case tb of None \<Rightarrow> True | Some t \<Rightarrow> fl_good t"
  shows "case read_size tb line of None \<Rightarrow> True | Some t \<Rightarrow> fl_good t"
proof (cases "search match_size line")
  case None
  with assms show ?thesis by (simp add: read_size_def)
next
  case (Some gu)
  obtain g u where gu: "gu = (g, u)" by (cases gu)
  show ?thesis
  proof (cases "py_float g")
    case None
    with Some gu assms show ?thesis by (simp add: read_size_def)
  next
    case (Some v)
    from fl_mul_good[OF py_float_good[OF Some] SIZE_MULT_pos[of u]]
      Some \<open>search match_size line = Some gu\<close> gu
    show ?thesis by (simp add: read_size_def)
  qed
qed

lemma eta_of_finite_total:
  assumes t: "0 < t" "t < DOUBLE_EDGE" and p: "0 \<le> pct" "pct \<le> 100" and a: "fl_good avg"
  shows "eta_ok (Progress song pct (fl_mul (Fin t) (Fin (pct / 100))) (Some (Fin t)) avg
           (eta_of (Some (fl_sub (Fin t) (fl_mul (Fin t) (Fin (pct / 100))))) avg))"
proof -
  define d where "d = t * (pct / 100)"
  have d0: "0 \<le> d" using t p by (simp add: d_def)
  have "t * (pct / 100) \<le> t * 1"
    using t p by (intro mult_left_mono) simp_all
  then have dt: "d \<le> t" by (simp add: d_def)
  have "to_double d = Fin d"
    using to_double_Fin[of d] d0 dt t DOUBLE_EDGE_pos by simp
  then have md: "fl_mul (Fin t) (Fin (pct / 100)) = Fin d"
    by (simp add: d_def)
  have r0: "0 \<le> t - d" using dt by simp
  have sb: "fl_sub (Fin t) (Fin d) = Fin (t - d)"
    using to_double_Fin[of "t - d"] r0 d0 t DOUBLE_EDGE_pos by (simp add: fl_sub_def)
  have z: "to_double 0 = Fin 0"
    using to_double_Fin[of 0] DOUBLE_EDGE_pos by simp
  then have sd: "fl_sub (Fin d) (Fin d) = Fin 0"
    by (simp add: fl_sub_def)
  show ?thesis
  proof (cases avg)
    case (Fin b)
    with a have b0: "0 \<le> b" by simp
    have "fl_nonneg (to_double ((t - d) / b))"
      using to_double_good[of "(t - d) / b"] r0 b0
      by (cases "to_double ((t - d) / b)") simp_all
    then show ?thesis
      unfolding md sb using Fin b0 t z
      by (simp add: sb sd eta_of_def truthy_def fl_truthy_def)
  next
    case PInf
    then show ?thesis
      unfolding md sb using t by (simp add: sb sd eta_of_def truthy_def fl_truthy_def)
  next
    case NInf
    with a show ?thesis by simp
  next
    case NaN
    with a show ?thesis by simp
  qed
qed

lemma eta_of_infinite_total:
  assumes p: "0 \<le> pct" and a: "fl_good avg"
  shows "eta_ok (Progress song pct (fl_mul PInf (Fin (pct / 100))) (Some PInf) avg
           (eta_of (Some (fl_sub PInf (fl_mul PInf (Fin (pct / 100))))) avg))"
proof -
  have r: "fl_sub PInf (signed_inf PInf (pct / 100)) = NaN"
    using p by (simp add: fl_sub_def signed_inf_def)
  show ?thesis
    using a by (cases avg) (simp_all add: r eta_of_def truthy_def fl_truthy_def)
qed

lemma eta_of_ok:
  assumes tb: "case tb of None \<Rightarrow> True | Some t \<Rightarrow> fl_good t"
    and p: "0 \<le> pct" "pct \<le> 100" and a: "fl_good avg"
  shows "eta_ok (Progress song pct
           (if truthy tb then fl_mul (the tb) (Fin (pct / 100)) else Fin 0) tb avg
           (eta_of (if truthy tb
                    then Some (fl_sub (the tb)
                      (if truthy tb then fl_mul (the tb) (Fin (pct / 100)) else Fin 0))
                    else None) avg))"
proof (cases tb)
  case None
  then show ?thesis by (simp add: eta_of_def truthy_def)
next
  case (Some x)
  show ?thesis
  proof (cases x)
    case (Fin t)
    show ?thesis
    proof (cases "t = 0")
      case True
      with Some Fin show ?thesis by (simp add: eta_of_def truthy_def fl_truthy_def)
    next
      case False
      with tb Some Fin have t: "0 < t" "t < DOUBLE_EDGE" by simp_all
      from False have tr: "truthy (Some (Fin t))" by (simp add: truthy_def fl_truthy_def)
      show ?thesis
        unfolding Some Fin using eta_of_finite_total[OF t p a, of song]
        by (simp only: tr if_True option.sel)
    qed
  next
    case PInf
    have tr: "truthy (Some PInf)" by (simp add: truthy_def fl_truthy_def)
    show ?thesis
      unfolding Some PInf using eta_of_infinite_total[OF p(1) a, of song]
      by (simp only: tr if_True option.sel)
  next
    case NInf
    with tb Some show ?thesis by simp
  next
    case NaN
    with tb Some show ?thesis by simp
  qed
qed

lemma update_progress_total:
  "total_bytes (fst (update_progress song st p sp)) = total_bytes st"
  by (simp add: update_progress_def Let_def case_prod_beta)

lemma update_progress_samples:
  "speed_samples (fst (update_progress song st p sp)) = fst (sample_speed (speed_samples st) sp)"
  by (simp add: update_progress_def Let_def case_prod_beta)

lemma update_progress_eta_ok:
  assumes "session_ok st" and "0 \<le> p"
  shows "list_all eta_ok (snd (update_progress song st p sp))
         \<and> session_ok (fst (update_progress song st p sp))"
proof -
  have le: "(if 100 < p then 100 else p) \<le> 100" by simp
  have ge: "0 \<le> (if 100 < p then 100 else p)" using assms(2) by simp
  from assms have tb: "case total_bytes st of None \<Rightarrow> True | Some t \<Rightarrow> fl_good t"
    and sm: "list_all fl_good (speed_samples st)"
    by (simp_all add: session_ok_def)
  note g = sample_speed_good[OF sm, of sp]
  have ok: "session_ok (fst (update_progress song st p sp))"
    using tb g by (simp add: session_ok_def update_progress_total update_progress_samples)
  have ev: "list_all eta_ok (snd (update_progress song st p sp))"
    using eta_of_ok[OF tb ge le conjunct2[OF g], of song]
    by (simp add: update_progress_def Let_def case_prod_beta)
  from ok ev show ?thesis by simp
qed

lemma line_pct_nonneg: "line_pct line = Some p \<Longrightarrow> 0 \<le> p"
  by (auto simp: line_pct_def dest: decimal_value_nonneg split: option.splits if_splits)

lemma process_line_eta_ok:
  assumes "session_ok st"
  shows "list_all eta_ok (snd (process_line song st line))
         \<and> session_ok (fst (process_line song st line))"
proof (cases "contains line already_marker")
  case True
  with assms show ?thesis by (simp add: process_line_marker session_ok_def truthy_def)
next
  case False
  let ?st1 = "st\<lparr>total_bytes := read_size (total_bytes st) line\<rparr>"
  have ok1: "session_ok ?st1"
    using assms read_size_good[of "total_bytes st" line] by (simp add: session_ok_def)
  show ?thesis
  proof (cases "line_pct line")
    case None
    with False line_pct_None[of line] have "search match_done line = None" by simp
    from process_line_unparsed[OF False this, of song st] ok1 show ?thesis by simp
  next
    case (Some p)
    have ok2: "session_ok (?st1\<lparr>saw_progress := True\<rparr>)"
      using ok1 by (simp add: session_ok_def)
    from process_line_parsed[OF Some, of song st]
      update_progress_eta_ok[OF ok2 line_pct_nonneg[OF Some]]
    show ?thesis by simp
  qed
qed

lemma read_loop_eta_ok:
  "session_ok st \<Longrightarrow> list_all eta_ok (snd (snd (read_loop song st ticks)))"
proof (induction ticks arbitrary: st)
  case Nil
  show ?case by simp
next
  case (Cons t ticks)
  show ?case
  proof (cases t)
    case (Read line exited)
    obtain st1 evs1 where p: "process_line song st line = (st1, evs1)"
      by (cases "process_line song st line")
    obtain status st2 evs2 where r: "read_loop song st1 ticks = (status, st2, evs2)"
      by (cases "read_loop song st1 ticks")
    from process_line_eta_ok[OF Cons.prems, of song line] p
    have 1: "list_all eta_ok evs1" and ok: "session_ok st1" by simp_all
    from Cons.IH[OF ok] r have 2: "list_all eta_ok evs2" by simp
    show ?thesis
      using Read p r 1 2 Cons.IH[OF Cons.prems] by simp
  qed simp_all
qed

text \<open>
  C6, as amended. In every progress event of a session the ETA is 0 when the average speed
  is 0 or the total size is unknown or 0, so that the remaining byte count is unknown; it
  is the remaining bytes, the total less the downloaded bytes, divided by the average
  speed when the speed is positive and the total is known and not 0. It is neither
  negative nor NaN as long as the total size is not \<open>inf\<close>; with the total size \<open>inf\<close>
  and a positive average speed it is NaN.
\<close>

theorem eta_zero_or_quotient:
  "\<forall>e\<in>set (snd (snd (read_loop song init_session ticks))). eta_ok e"
  using read_loop_eta_ok[of init_session song ticks]
  by (simp add: list_all_iff session_ok_def init_session_def)

theorem eta_zero_or_quotient_witness:
  "snd (snd (read_loop ''s'' init_session
     [Read ''[download]  50.0% of 4.00MiB at 1.00MiB/s ETA 00:02'' False,
      Read ''[download]  75.0% of 4.00MiB'' False,
      Read (''50% of 1'' @ replicate 309 (CHR ''0'') @ ''MiB at 1.00MiB/s'') False]))
   = [Stage ''Downloading song'' Download,
      Progress ''s'' 50 (Fin 2097152) (Some (Fin 4194304)) (Fin 1048576) (Fin 2),
      Progress ''s'' 75 (Fin 3145728) (Some (Fin 4194304)) (Fin 0) (Fin 0),
      Progress ''s'' 50 PInf (Some PInf) (Fin 1048576) NaN]
   \<and> eta_ok (Progress ''s'' 50 (Fin 2097152) (Some (Fin 4194304)) (Fin 1048576) (Fin 2))
   \<and> eta_ok (Progress ''s'' 75 (Fin 3145728) (Some (Fin 4194304)) (Fin 0) (Fin 0))
   \<and> eta_ok (Progress ''s'' 50 PInf (Some PInf) (Fin 1048576) NaN)"
proof -
  define L where "L = (''50% of 1'' @ replicate 309 (CHR ''0'') @ ''MiB at 1.00MiB/s'')"
  define B where "B = CHR ''1'' # replicate 309 (CHR ''0'')"
  note f = overflowing_line[folded L_def B_def] py_float_overflow[folded B_def]
  have one: "py_float ''1.00'' = Some (Fin 1)" by (simp add: parse_defs fl_defs)
  have fifty: "decimal_value ''50'' = Some 50" by (simp add: parse_defs)
  have ne: "L \<noteq> []" by (simp add: L_def)
  have r1: "read_loop ''s'' init_session
     [Read ''[download]  50.0% of 4.00MiB at 1.00MiB/s ETA 00:02'' False,
      Read ''[download]  75.0% of 4.00MiB'' False]
   = (Reading,
      \<lparr>total_bytes = Some (Fin 4194304), last_pct = Some 75,
         speed_samples = [Fin 1048576], saw_progress = True, phase = Song\<rparr>,
      [Stage ''Downloading song'' Download,
       Progress ''s'' 50 (Fin 2097152) (Some (Fin 4194304)) (Fin 1048576) (Fin 2),
       Progress ''s'' 75 (Fin 3145728) (Some (Fin 4194304)) (Fin 0) (Fin 0)])"
    by (simp add: parse_defs session_defs fl_defs)
  have r2: "snd (snd (read_loop ''s''
      \<lparr>total_bytes = Some (Fin 4194304), last_pct = Some 75,
         speed_samples = [Fin 1048576], saw_progress = True, phase = Song\<rparr>
      [Read L False]))
    = [Progress ''s'' 50 PInf (Some PInf) (Fin 1048576) NaN]"
    using f one fifty ne by (simp add: session_defs fl_defs)
  have a: "fst (read_loop ''s'' init_session
     [Read ''[download]  50.0% of 4.00MiB at 1.00MiB/s ETA 00:02'' False,
      Read ''[download]  75.0% of 4.00MiB'' False]) = Reading"
    unfolding r1 by simp
  note ap = read_loop_append[OF a, of "[Read L False]", unfolded r1 fst_conv snd_conv]
  have r': "snd (snd (read_loop ''s'' init_session
     [Read ''[download]  50.0% of 4.00MiB at 1.00MiB/s ETA 00:02'' False,
      Read ''[download]  75.0% of 4.00MiB'' False, Read L False]))
   = [Stage ''Downloading song'' Download,
      Progress ''s'' 50 (Fin 2097152) (Some (Fin 4194304)) (Fin 1048576) (Fin 2),
      Progress ''s'' 75 (Fin 3145728) (Some (Fin 4194304)) (Fin 0) (Fin 0),
      Progress ''s'' 50 PInf (Some PInf) (Fin 1048576) NaN]"
    using r2 ap[unfolded append.simps]
    by (simp only: case_prod_beta snd_conv append.simps)
  have w: "snd (snd (read_loop ''s'' init_session
     [Read ''[download]  50.0% of 4.00MiB at 1.00MiB/s ETA 00:02'' False,
      Read ''[download]  75.0% of 4.00MiB'' False,
      Read L False]))
   = [Stage ''Downloading song'' Download,
      Progress ''s'' 50 (Fin 2097152) (Some (Fin 4194304)) (Fin 1048576) (Fin 2),
      Progress ''s'' 75 (Fin 3145728) (Some (Fin 4194304)) (Fin 0) (Fin 0),
      Progress ''s'' 50 PInf (Some PInf) (Fin 1048576) NaN]
   \<and> eta_ok (Progress ''s'' 50 (Fin 2097152) (Some (Fin 4194304)) (Fin 1048576) (Fin 2))
   \<and> eta_ok (Progress ''s'' 75 (Fin 3145728) (Some (Fin 4194304)) (Fin 0) (Fin 0))
   \<and> eta_ok (Progress ''s'' 50 PInf (Some PInf) (Fin 1048576) NaN)"
    using eta_zero_or_quotient[of "''s''"
      "[Read ''[download]  50.0% of 4.00MiB at 1.00MiB/s ETA 00:02'' False,
        Read ''[download]  75.0% of 4.00MiB'' False, Read L False]"]
    unfolding r' by (simp add: fl_defs truthy_def)
  show ?thesis using w unfolding L_def .
qed

text \<open>
  C6, as stated, fails: a size of 310 digits is \<open>inf\<close> as a float, the downloaded bytes
  are \<open>inf\<close>, the remaining bytes \<open>inf - inf\<close> are NaN, and the ETA handed to the
  callback is NaN.
\<close>

theorem eta_nan_on_overflowing_size:
  "snd (snd (read_loop ''s'' init_session [Read (''50% of 1'' @ replicate 309 (CHR ''0'') @ ''MiB at 1.00MiB/s'') False]))
     = [Stage ''Downloading song'' Download,
        Progress ''s'' 50 PInf (Some PInf) (Fin 1048576) NaN]
   \<and> \<not> fl_nonneg NaN"
proof -
  define L where "L = (''50% of 1'' @ replicate 309 (CHR ''0'') @ ''MiB at 1.00MiB/s'')"
  define B where "B = CHR ''1'' # replicate 309 (CHR ''0'')"
  note f = overflowing_line[folded L_def B_def] py_float_overflow[folded B_def]
  have one: "py_float ''1.00'' = Some (Fin 1)" by (simp add: parse_defs fl_defs)
  have fifty: "decimal_value ''50'' = Some 50" by (simp add: parse_defs)
  have ne: "L \<noteq> []" by (simp add: L_def)
  have "snd (snd (read_loop ''s'' init_session [Read L False]))
     = [Stage ''Downloading song'' Download,
        Progress ''s'' 50 PInf (Some PInf) (Fin 1048576) NaN]
   \<and> \<not> fl_nonneg NaN"
    using f one fifty ne by (simp add: session_defs fl_defs)
  then show ?thesis unfolding L_def .
qed

end
